theory Spec2Isabelle
  imports Complex_Main "HOL-Library.Sublist" "HOL-Library.Product_Lexorder"
begin

section \<open>Python values and errors\<close>

text \<open>
  The course data is whatever \<^verbatim>\<open>response.json()\<close> returns, so it is modelled as a JSON value
  with Python's dynamic operations on it. A Python \<^verbatim>\<open>str\<close> is a \<open>string\<close>; \<^verbatim>\<open>float\<close>
  arithmetic is modelled in exact real arithmetic (IEEE rounding is not part of the model).
  A raised exception is the \<open>Inl\<close> of a sum.
\<close>

datatype error = AttributeError | TypeError | KeyError | RequestException | TaxonomyError

datatype json =
    JNull
  | JBool bool
  | JNum real
  | JStr string
  | JArr "json list"
  | JObj "(string \<times> json) list"

text \<open>\<^verbatim>\<open>str.lower()\<close>, on the ASCII letters.\<close>

definition lower_char :: "char \<Rightarrow> char" where
  "lower_char c =
     (let n = (of_char c :: nat) in if 65 \<le> n \<and> n \<le> 90 then char_of (n + 32) else c)"

definition lower :: "string \<Rightarrow> string" where
  "lower s = map lower_char s"

text \<open>\<^verbatim>\<open>bool(x)\<close>: the truth value of a JSON value.\<close>

fun truthy :: "json \<Rightarrow> bool" where
  "truthy JNull = False"
| "truthy (JBool b) = b"
| "truthy (JNum r) = (r \<noteq> 0)"
| "truthy (JStr s) = (s \<noteq> [])"
| "truthy (JArr xs) = (xs \<noteq> [])"
| "truthy (JObj kvs) = (kvs \<noteq> [])"

text \<open>\<^verbatim>\<open>k in x\<close> for a string \<open>k\<close>: key of a dict, element of a list, substring of a string;
  \<^verbatim>\<open>TypeError\<close> on anything else.\<close>

fun contains :: "string \<Rightarrow> json \<Rightarrow> error + bool" where
  "contains k (JObj kvs) = Inr (map_of kvs k \<noteq> None)"
| "contains k (JArr xs) = Inr (JStr k \<in> set xs)"
| "contains k (JStr s) = Inr (sublist k s)"
| "contains k JNull = Inl TypeError"
| "contains k (JBool b) = Inl TypeError"
| "contains k (JNum r) = Inl TypeError"

text \<open>\<^verbatim>\<open>x[k]\<close> for a string \<open>k\<close>: only a dict can be subscripted by a string.\<close>

fun subscript :: "json \<Rightarrow> string \<Rightarrow> error + json" where
  "subscript (JObj kvs) k = (case map_of kvs k of None \<Rightarrow> Inl KeyError | Some v \<Rightarrow> Inr v)"
| "subscript JNull k = Inl TypeError"
| "subscript (JBool b) k = Inl TypeError"
| "subscript (JNum r) k = Inl TypeError"
| "subscript (JStr s) k = Inl TypeError"
| "subscript (JArr xs) k = Inl TypeError"

text \<open>\<^verbatim>\<open>for e in x\<close>: the elements of a list, the characters of a string, the keys of a dict.\<close>

fun iterate :: "json \<Rightarrow> error + json list" where
  "iterate (JArr xs) = Inr xs"
| "iterate (JStr s) = Inr (map (\<lambda>c. JStr [c]) s)"
| "iterate (JObj kvs) = Inr (map (\<lambda>kv. JStr (fst kv)) kvs)"
| "iterate JNull = Inl TypeError"
| "iterate (JBool b) = Inl TypeError"
| "iterate (JNum r) = Inl TypeError"

text \<open>\<^verbatim>\<open>x.get(k, default)\<close>: a method of dicts only.\<close>

fun get :: "json \<Rightarrow> string \<Rightarrow> json \<Rightarrow> error + json" where
  "get (JObj kvs) k d = Inr (case map_of kvs k of None \<Rightarrow> d | Some v \<Rightarrow> v)"
| "get JNull k d = Inl AttributeError"
| "get (JBool b) k d = Inl AttributeError"
| "get (JNum r) k d = Inl AttributeError"
| "get (JStr s) k d = Inl AttributeError"
| "get (JArr xs) k d = Inl AttributeError"

text \<open>\<^verbatim>\<open>x.lower()\<close>: a method of strings only.\<close>

fun lower_method :: "json \<Rightarrow> error + string" where
  "lower_method (JStr s) = Inr (lower s)"
| "lower_method JNull = Inl AttributeError"
| "lower_method (JBool b) = Inl AttributeError"
| "lower_method (JNum r) = Inl AttributeError"
| "lower_method (JArr xs) = Inl AttributeError"
| "lower_method (JObj kvs) = Inl AttributeError"

section \<open>\<^verbatim>\<open>difflib.SequenceMatcher(None, a, b).ratio()\<close>\<close>

text \<open>
  The standard library's matcher, as the program calls it: no junk predicate
  (\<^verbatim>\<open>isjunk=None\<close>) and \<^verbatim>\<open>autojunk=True\<close>.

  \<^verbatim>\<open>__chain_b\<close> maps each element of \<open>b\<close> to the ascending list of its positions and, when
  \<open>b\<close> has at least 200 elements, deletes the entries of the popular elements (more than
  \<open>n // 100 + 1\<close> occurrences). \<open>chain_b b x\<close> is \<^verbatim>\<open>b2j.get(x, [])\<close>.
\<close>

definition popular :: "'a list \<Rightarrow> 'a \<Rightarrow> bool" where
  "popular b x \<longleftrightarrow> 200 \<le> length b \<and> length b div 100 + 1 < count_list b x"

definition chain_b :: "'a list \<Rightarrow> 'a \<Rightarrow> nat list" where
  "chain_b b x = (if popular b x then [] else filter (\<lambda>j. b ! j = x) [0..<length b])"

text \<open>\<^verbatim>\<open>bjunk\<close> is the empty set, so \<^verbatim>\<open>isbjunk\<close> is false everywhere.\<close>

definition isbjunk :: "'a \<Rightarrow> bool" where
  "isbjunk x = False"

type_synonym match = "nat \<times> nat \<times> nat"

text \<open>\<^verbatim>\<open>j2len.get(j-1, 0)\<close>: the key \<open>-1\<close> is never present.\<close>

definition j2lenget :: "(nat \<rightharpoonup> nat) \<Rightarrow> nat \<Rightarrow> nat" where
  "j2lenget j2len j = (if j = 0 then 0 else case j2len (j - 1) of None \<Rightarrow> 0 | Some v \<Rightarrow> v)"

text \<open>The inner loop of \<^verbatim>\<open>find_longest_match\<close>, over the positions \<open>j\<close> of \<open>a[i]\<close> in \<open>b\<close>.\<close>

fun match_row ::
  "nat \<Rightarrow> nat \<Rightarrow> nat \<Rightarrow> (nat \<rightharpoonup> nat) \<Rightarrow> nat list \<Rightarrow> (nat \<rightharpoonup> nat) \<times> match \<Rightarrow> (nat \<rightharpoonup> nat) \<times> match" where
  "match_row i blo bhi j2len [] st = st"
| "match_row i blo bhi j2len (j # js) (newj2len, besti, bestj, bestsize) =
     (if j < blo then match_row i blo bhi j2len js (newj2len, besti, bestj, bestsize)
      else if bhi \<le> j then (newj2len, besti, bestj, bestsize)
      else
        (let k = j2lenget j2len j + 1 in
         if bestsize < k
         then match_row i blo bhi j2len js (newj2len(j \<mapsto> k), i + 1 - k, j + 1 - k, k)
         else match_row i blo bhi j2len js (newj2len(j \<mapsto> k), besti, bestj, bestsize)))"

text \<open>The outer loop, over \<^verbatim>\<open>range(alo, ahi)\<close>.\<close>

fun match_rows ::
  "'a list \<Rightarrow> 'a list \<Rightarrow> nat \<Rightarrow> nat \<Rightarrow> nat list \<Rightarrow> (nat \<rightharpoonup> nat) \<times> match \<Rightarrow> match" where
  "match_rows a b blo bhi [] (j2len, best) = best"
| "match_rows a b blo bhi (i # is) (j2len, best) =
     match_rows a b blo bhi is (match_row i blo bhi j2len (chain_b b (a ! i)) (Map.empty, best))"

text \<open>The two kinds of \<^verbatim>\<open>while\<close> loop that extend the best match, downwards and upwards; \<open>P\<close>
  is the test on \<open>b\<close>'s element (not junk in the first pair of loops, junk in the second).\<close>

function extend_down :: "('a \<Rightarrow> bool) \<Rightarrow> 'a list \<Rightarrow> 'a list \<Rightarrow> nat \<Rightarrow> nat \<Rightarrow> match \<Rightarrow> match" where
  "extend_down P a b alo blo (besti, bestj, bestsize) =
     (if alo < besti \<and> blo < bestj \<and> P (b ! (bestj - 1)) \<and> a ! (besti - 1) = b ! (bestj - 1)
      then extend_down P a b alo blo (besti - 1, bestj - 1, bestsize + 1)
      else (besti, bestj, bestsize))"
  by pat_completeness auto
termination
  by (relation "measure (\<lambda>(P, a, b, alo, blo, besti, bestj, bestsize). besti)") auto

function extend_up :: "('a \<Rightarrow> bool) \<Rightarrow> 'a list \<Rightarrow> 'a list \<Rightarrow> nat \<Rightarrow> nat \<Rightarrow> match \<Rightarrow> match" where
  "extend_up P a b ahi bhi (besti, bestj, bestsize) =
     (if besti + bestsize < ahi \<and> bestj + bestsize < bhi \<and> P (b ! (bestj + bestsize))
         \<and> a ! (besti + bestsize) = b ! (bestj + bestsize)
      then extend_up P a b ahi bhi (besti, bestj, bestsize + 1)
      else (besti, bestj, bestsize))"
  by pat_completeness auto
termination
  by (relation "measure (\<lambda>(P, a, b, ahi, bhi, besti, bestj, bestsize). ahi - (besti + bestsize))") auto

definition find_longest_match :: "'a list \<Rightarrow> 'a list \<Rightarrow> nat \<Rightarrow> nat \<Rightarrow> nat \<Rightarrow> nat \<Rightarrow> match" where
  "find_longest_match a b alo ahi blo bhi =
     (let best = match_rows a b blo bhi [alo..<ahi] (Map.empty, alo, blo, 0);
          best = extend_down (\<lambda>x. \<not> isbjunk x) a b alo blo best;
          best = extend_up (\<lambda>x. \<not> isbjunk x) a b ahi bhi best;
          best = extend_down isbjunk a b alo blo best;
          best = extend_up isbjunk a b ahi bhi best
      in best)"

subsection \<open>The match lies inside the window\<close>

text \<open>
  What \<^verbatim>\<open>find_longest_match\<close> promises in its docstring, \<open>alo \<le> i \<le> i+k \<le> ahi\<close> and
  \<open>blo \<le> j \<le> j+k \<le> bhi\<close>, as an invariant of its loops. \<open>row_ok\<close> bounds the lengths stored
  in \<^verbatim>\<open>j2len\<close>; \<open>best_ok\<close> is the invariant of \<^verbatim>\<open>(besti, bestj, bestsize)\<close>.
\<close>

definition row_ok :: "nat \<Rightarrow> nat \<Rightarrow> (nat \<rightharpoonup> nat) \<Rightarrow> bool" where
  "row_ok blo n m \<longleftrightarrow> (\<forall>j v. m j = Some v \<longrightarrow> v \<le> n \<and> v \<le> j + 1 - blo)"

definition best_ok :: "nat \<Rightarrow> nat \<Rightarrow> nat \<Rightarrow> nat \<Rightarrow> match \<Rightarrow> bool" where
  "best_ok alo ahi blo bhi best \<longleftrightarrow>
     (case best of (besti, bestj, bestsize) \<Rightarrow>
        (bestsize = 0 \<and> besti = alo \<and> bestj = blo) \<or>
        (alo \<le> besti \<and> besti + bestsize \<le> ahi \<and> blo \<le> bestj \<and> bestj + bestsize \<le> bhi))"

lemma j2lenget_le:
  assumes "row_ok blo n m" "blo \<le> j"
  shows "j2lenget m j \<le> n" "j2lenget m j \<le> j - blo"
proof -
  show "j2lenget m j \<le> n"
    using assms(1) by (cases "m (j - 1)") (auto simp: j2lenget_def row_ok_def)
  show "j2lenget m j \<le> j - blo"
  proof (cases "j = 0")
    case True then show ?thesis by (simp add: j2lenget_def)
  next
    case False
    show ?thesis
    proof (cases "m (j - 1)")
      case None then show ?thesis by (simp add: j2lenget_def)
    next
      case (Some v)
      with assms(1) have "v \<le> j - 1 + 1 - blo" by (auto simp: row_ok_def)
      with False Some show ?thesis by (simp add: j2lenget_def)
    qed
  qed
qed

lemma match_row_ok:
  assumes "row_ok blo (i - alo) j2len" "alo \<le> i" "i < ahi"
    and "row_ok blo (i + 1 - alo) new" "best_ok alo ahi blo bhi best"
    and "match_row i blo bhi j2len js (new, best) = (new', best')"
  shows "row_ok blo (i + 1 - alo) new' \<and> best_ok alo ahi blo bhi best'"
  using assms
proof (induction js arbitrary: new best)
  case Nil
  then show ?case by simp
next
  case (Cons j js)
  obtain bi bj bs where best: "best = (bi, bj, bs)" by (cases best) auto
  show ?case
  proof (cases "j < blo")
    case True
    with Cons best show ?thesis by simp
  next
    case lo: False
    show ?thesis
    proof (cases "bhi \<le> j")
      case True
      with Cons.prems lo best show ?thesis by simp
    next
      case hi: False
      define k where "k = j2lenget j2len j + 1"
      have k1: "k \<le> i + 1 - alo" and k2: "k \<le> j + 1 - blo"
        using j2lenget_le[OF Cons.prems(1), of j] lo Cons.prems(2) by (auto simp: k_def)
      have new_ok: "row_ok blo (i + 1 - alo) (new(j \<mapsto> k))"
        using Cons.prems(4) k1 k2 by (auto simp: row_ok_def)
      have upd_ok: "best_ok alo ahi blo bhi (i + 1 - k, j + 1 - k, k)"
        using k1 k2 lo hi Cons.prems(2,3) by (auto simp: best_ok_def)
      show ?thesis
      proof (cases "bs < k")
        case True
        with Cons.prems(6) lo hi best have
          "match_row i blo bhi j2len js (new(j \<mapsto> k), i + 1 - k, j + 1 - k, k) = (new', best')"
          by (simp add: k_def Let_def)
        from Cons.IH[OF Cons.prems(1,2,3) new_ok upd_ok this] show ?thesis .
      next
        case False
        with Cons.prems(6) lo hi best have
          "match_row i blo bhi j2len js (new(j \<mapsto> k), best) = (new', best')"
          by (simp add: k_def Let_def)
        from Cons.IH[OF Cons.prems(1,2,3) new_ok Cons.prems(5) this] show ?thesis .
      qed
    qed
  qed
qed

lemma match_rows_ok:
  assumes "is = [i0..<ahi]" "alo \<le> i0" "row_ok blo (i0 - alo) j2len" "best_ok alo ahi blo bhi best"
  shows "best_ok alo ahi blo bhi (match_rows a b blo bhi is (j2len, best))"
  using assms
proof (induction "is" arbitrary: i0 j2len best)
  case Nil
  then show ?case by simp
next
  case (Cons i "is")
  from Cons.prems(1)[symmetric] have i: "i = i0" "i0 < ahi" and rest: "is = [Suc i0..<ahi]"
    by (auto simp: upt_eq_Cons_conv)

  obtain new' best' where r: "match_row i blo bhi j2len (chain_b b (a ! i)) (Map.empty, best) = (new', best')"
    by (cases "match_row i blo bhi j2len (chain_b b (a ! i)) (Map.empty, best)") auto
  have e: "row_ok blo (i + 1 - alo) Map.empty" by (simp add: row_ok_def)
  from match_row_ok[OF _ _ _ e Cons.prems(4) r] Cons.prems(2,3) i
  have ok: "row_ok blo (i + 1 - alo) new'" "best_ok alo ahi blo bhi best'" by auto
  have "best_ok alo ahi blo bhi (match_rows a b blo bhi is (new', best'))"
    using Cons.IH[OF rest _ _ ok(2), of new'] ok(1) Cons.prems(2) i by (simp add: Suc_diff_le)
  with r show ?case by simp
qed

declare extend_down.simps [simp del] extend_up.simps [simp del]

lemma extend_down_ok:
  "best_ok alo ahi blo bhi best \<Longrightarrow> best_ok alo ahi blo bhi (extend_down P a b alo blo best)"
proof (induction P a b alo blo best rule: extend_down.induct)
  case (1 P a b alo blo besti bestj bestsize)
  show ?case
  proof (cases "alo < besti \<and> blo < bestj \<and> P (b ! (bestj - 1)) \<and> a ! (besti - 1) = b ! (bestj - 1)")
    case True
    from True "1.prems" have "best_ok alo ahi blo bhi (besti - 1, bestj - 1, bestsize + 1)"
      by (auto simp: best_ok_def)
    from "1.IH"[OF True this] True show ?thesis by (subst extend_down.simps) simp
  next
    case False
    with "1.prems" show ?thesis by (subst extend_down.simps) auto
  qed
qed

lemma extend_up_ok:
  "best_ok alo ahi blo bhi best \<Longrightarrow> best_ok alo ahi blo bhi (extend_up P a b ahi bhi best)"
proof (induction P a b ahi bhi best rule: extend_up.induct)
  case (1 P a b ahi bhi besti bestj bestsize)
  show ?case
  proof (cases "besti + bestsize < ahi \<and> bestj + bestsize < bhi \<and> P (b ! (bestj + bestsize))
         \<and> a ! (besti + bestsize) = b ! (bestj + bestsize)")
    case True
    from True "1.prems" have "best_ok alo ahi blo bhi (besti, bestj, bestsize + 1)"
      by (auto simp: best_ok_def)
    from "1.IH"[OF True this] True show ?thesis by (subst extend_up.simps) simp
  next
    case False
    with "1.prems" show ?thesis by (subst extend_up.simps) auto
  qed
qed

lemma find_longest_match_ok: "best_ok alo ahi blo bhi (find_longest_match a b alo ahi blo bhi)"
proof -
  have "best_ok alo ahi blo bhi (match_rows a b blo bhi [alo..<ahi] (Map.empty, alo, blo, 0))"
    by (rule match_rows_ok) (auto simp: row_ok_def best_ok_def)
  then show ?thesis
    unfolding find_longest_match_def Let_def
    by (intro extend_up_ok extend_down_ok)
qed

lemma find_longest_match_bounds:
  assumes "find_longest_match a b alo ahi blo bhi = (i, j, k)" "k \<noteq> 0"
  shows "alo \<le> i" "i + k \<le> ahi" "blo \<le> j" "j + k \<le> bhi"
  using find_longest_match_ok[of alo ahi blo bhi a b] assms by (auto simp: best_ok_def)

lemma find_longest_match_window:
  assumes "(i, j, k) = find_longest_match a b alo ahi blo bhi" "0 < k"
  shows "alo \<le> i \<and> i + k \<le> ahi \<and> blo \<le> j \<and> j + k \<le> bhi"
  using find_longest_match_bounds[OF assms(1)[symmetric]] assms(2) by simp

subsection \<open>Matching blocks and the ratio\<close>

text \<open>
  \<^verbatim>\<open>get_matching_blocks\<close> keeps a stack of windows still to be searched (\<^verbatim>\<open>queue.pop()\<close> takes
  the window appended last: the head of the list here). The loop ends because each window
  pushed is strictly inside the one popped.
\<close>

type_synonym window = "nat \<times> nat \<times> nat \<times> nat"

function blocks_loop :: "'a list \<Rightarrow> 'a list \<Rightarrow> window list \<Rightarrow> match list \<Rightarrow> match list" where
  "blocks_loop a b [] matching_blocks = matching_blocks"
| "blocks_loop a b ((alo, ahi, blo, bhi) # queue) matching_blocks =
     (case find_longest_match a b alo ahi blo bhi of (i, j, k) \<Rightarrow>
        if k \<noteq> 0
        then blocks_loop a b
               ((if i + k < ahi \<and> j + k < bhi then [(i + k, ahi, j + k, bhi)] else []) @
                (if alo < i \<and> blo < j then [(alo, i, blo, j)] else []) @ queue)
               (matching_blocks @ [(i, j, k)])
        else blocks_loop a b queue matching_blocks)"
  by pat_completeness auto
termination
  apply (relation "measure (\<lambda>(a, b, queue, matching_blocks).
          (\<Sum>(alo, ahi, blo, bhi)\<leftarrow>queue. 2 * (ahi - alo) + 1))")
    apply simp
   apply (auto dest: find_longest_match_window)
  done

text \<open>The loop that merges adjacent blocks of the sorted list; \<open>(i1, j1, k1)\<close> is the block
  being grown.\<close>

fun collapse :: "match list \<Rightarrow> match \<Rightarrow> match list \<Rightarrow> match list" where
  "collapse [] (i1, j1, k1) non_adjacent =
     (if k1 \<noteq> 0 then non_adjacent @ [(i1, j1, k1)] else non_adjacent)"
| "collapse ((i2, j2, k2) # rest) (i1, j1, k1) non_adjacent =
     (if i1 + k1 = i2 \<and> j1 + k1 = j2 then collapse rest (i1, j1, k1 + k2) non_adjacent
      else collapse rest (i2, j2, k2)
             (if k1 \<noteq> 0 then non_adjacent @ [(i1, j1, k1)] else non_adjacent))"

definition get_matching_blocks :: "'a list \<Rightarrow> 'a list \<Rightarrow> match list" where
  "get_matching_blocks a b =
     (let la = length a; lb = length b;
          matching_blocks = blocks_loop a b [(0, la, 0, lb)] [];
          non_adjacent = collapse (sort matching_blocks) (0, 0, 0) []
      in non_adjacent @ [(la, lb, 0)])"

text \<open>\<^verbatim>\<open>_calculate_ratio(matches, length)\<close> and \<^verbatim>\<open>ratio()\<close>.\<close>

definition calculate_ratio :: "nat \<Rightarrow> nat \<Rightarrow> real" where
  "calculate_ratio matches len = (if len \<noteq> 0 then 2 * real matches / real len else 1)"

definition ratio :: "'a list \<Rightarrow> 'a list \<Rightarrow> real" where
  "ratio a b =
     calculate_ratio (sum_list (map (\<lambda>triple. snd (snd triple)) (get_matching_blocks a b)))
       (length a + length b)"


section \<open>The course matcher of \<^verbatim>\<open>esco_kg_streamlit.py\<close>\<close>

text \<open>
  Modelled from the spec: the entries of the list that \<^verbatim>\<open>ESCOKnowledgeGraph.get_missing_skills\<close>
  returns (module \<^verbatim>\<open>esco_kg_matching\<close> is not among the sources). The program reads the keys
  \<^verbatim>\<open>'skill_label'\<close> and \<^verbatim>\<open>'occupation_skill_level'\<close>, and \<^verbatim>\<open>'experience_level'\<close> with a default;
  the spec's MissingCapability has a label, a required level and an optional experience hint.
\<close>

record missing_skill =
  skill_label :: string
  occupation_skill_level :: string
  experience_level :: "string option"

text \<open>The dictionaries that \<^verbatim>\<open>calculate_course_match_score\<close> builds, and its two kinds of
  return value: the integer \<^verbatim>\<open>0\<close> of the guard, or the dictionary of the last line.\<close>

record matched_skill =
  skill :: string
  score :: real
  level :: string

record match_result =
  total_score :: real
  matched_skills :: "matched_skill list"

datatype evaluation = Int_Zero | Match_Dict match_result

text \<open>\<^verbatim>\<open>calculate_skill_match(skill1, skill2)\<close>; the two \<^verbatim>\<open>.lower()\<close> calls are evaluated first,
  left to right.\<close>

definition calculate_skill_match :: "json \<Rightarrow> json \<Rightarrow> error + real" where
  "calculate_skill_match skill1 skill2 =
     (case lower_method skill1 of Inl e \<Rightarrow> Inl e
      | Inr a \<Rightarrow>
          (case lower_method skill2 of Inl e \<Rightarrow> Inl e
           | Inr b \<Rightarrow> Inr (ratio a b)))"

text \<open>Lines 83 to 87 of the source: the two matches of a lower-cased label and their weighted
  sum \<^verbatim>\<open>skill_score\<close>.\<close>

definition skill_score :: "string \<Rightarrow> string \<Rightarrow> string \<Rightarrow> error + real" where
  "skill_score label course_name course_description =
     (case calculate_skill_match (JStr label) (JStr course_name) of Inl e \<Rightarrow> Inl e
      | Inr name_match \<Rightarrow>
          (case calculate_skill_match (JStr label) (JStr course_description) of Inl e \<Rightarrow> Inl e
           | Inr desc_match \<Rightarrow> Inr (name_match * 0.7 + desc_match * 0.3)))"

text \<open>The loop \<^verbatim>\<open>for skill in missing_skills\<close> for one element, on the pair
  \<^verbatim>\<open>(total_score, matched_skills)\<close>.\<close>

fun skills_loop ::
  "string \<Rightarrow> string \<Rightarrow> missing_skill list \<Rightarrow> real \<times> matched_skill list \<Rightarrow>
   error + real \<times> matched_skill list" where
  "skills_loop course_name course_description [] acc = Inr acc"
| "skills_loop course_name course_description (sk # rest) (tot, matched) =
     (let label = lower (skill_label sk) in
      case skill_score label course_name course_description of Inl e \<Rightarrow> Inl e
      | Inr s \<Rightarrow>
          if s > 0.3
          then skills_loop course_name course_description rest
                 (tot + s * (if occupation_skill_level sk = ''essential'' then 2 else 1),
                  matched @ [\<lparr>skill = label, score = s, level = occupation_skill_level sk\<rparr>])
          else skills_loop course_name course_description rest (tot, matched))"

text \<open>\<^verbatim>\<open>element.get(key, '').lower()\<close>, the way the name and the description of an element are
  read.\<close>

definition text_field :: "json \<Rightarrow> string \<Rightarrow> error + string" where
  "text_field element key =
     (case get element key (JStr []) of Inl e \<Rightarrow> Inl e | Inr v \<Rightarrow> lower_method v)"

text \<open>The loop \<^verbatim>\<open>for element in course['elements']\<close>.\<close>

fun elements_loop ::
  "json list \<Rightarrow> missing_skill list \<Rightarrow> real \<times> matched_skill list \<Rightarrow>
   error + real \<times> matched_skill list" where
  "elements_loop [] missing_skills acc = Inr acc"
| "elements_loop (element # rest) missing_skills acc =
     (case text_field element ''name'' of Inl e \<Rightarrow> Inl e
      | Inr course_name \<Rightarrow>
     (case text_field element ''description'' of Inl e \<Rightarrow> Inl e
      | Inr course_description \<Rightarrow>
     (case skills_loop course_name course_description missing_skills acc of Inl e \<Rightarrow> Inl e
      | Inr acc' \<Rightarrow> elements_loop rest missing_skills acc')))"

text \<open>\<^verbatim>\<open>calculate_course_match_score(course, missing_skills)\<close>: the guard, then the two
  loops from \<^verbatim>\<open>total_score = 0\<close> and \<^verbatim>\<open>matched_skills = []\<close>.\<close>

definition calculate_course_match_score :: "json \<Rightarrow> missing_skill list \<Rightarrow> error + evaluation" where
  "calculate_course_match_score course missing_skills =
     (if \<not> truthy course then Inr Int_Zero
      else
        case contains ''elements'' course of Inl e \<Rightarrow> Inl e
        | Inr present \<Rightarrow>
            if \<not> present then Inr Int_Zero
            else
              (case subscript course ''elements'' of Inl e \<Rightarrow> Inl e
               | Inr v \<Rightarrow>
              (case iterate v of Inl e \<Rightarrow> Inl e
               | Inr elements \<Rightarrow>
              (case elements_loop elements missing_skills (0, []) of Inl e \<Rightarrow> Inl e
               | Inr (tot, matched) \<Rightarrow>
                   Inr (Match_Dict \<lparr>total_score = tot, matched_skills = matched\<rparr>)))))"

text \<open>An entry of \<^verbatim>\<open>all_courses\<close>.\<close>

record recommendation =
  course :: json
  match_score :: match_result
  target_skill_level :: string
  suitable_for_experience :: string

text \<open>
  \<^verbatim>\<open>get_coursera_courses(skill)\<close>: \<open>request query\<close> is the outcome of the body of the
  \<^verbatim>\<open>try\<close> (the HTTP request, \<^verbatim>\<open>raise_for_status\<close> and \<^verbatim>\<open>response.json()\<close>); any exception
  is caught and \<^verbatim>\<open>None\<close> is returned. The message shown with \<^verbatim>\<open>st.error\<close> and the
  caches of \<^verbatim>\<open>st.cache_data\<close> are not modelled.
\<close>

definition get_coursera_courses :: "(string \<Rightarrow> error + json) \<Rightarrow> string \<Rightarrow> json" where
  "get_coursera_courses request query =
     (case request query of Inl e \<Rightarrow> JNull | Inr response \<Rightarrow> response)"

text \<open>The loop \<^verbatim>\<open>for course in courses['elements']\<close> for the missing skill \<open>sk\<close>;
  \<^verbatim>\<open>match_score['total_score']\<close> is a \<^verbatim>\<open>TypeError\<close> on the integer \<^verbatim>\<open>0\<close>.\<close>

fun courses_loop ::
  "missing_skill list \<Rightarrow> missing_skill \<Rightarrow> json list \<Rightarrow> recommendation list \<Rightarrow>
   error + recommendation list" where
  "courses_loop missing_skills sk [] all_courses = Inr all_courses"
| "courses_loop missing_skills sk (c # rest) all_courses =
     (case calculate_course_match_score (JObj [(''elements'', JArr [c])]) missing_skills of
        Inl e \<Rightarrow> Inl e
      | Inr Int_Zero \<Rightarrow> Inl TypeError
      | Inr (Match_Dict m) \<Rightarrow>
          if total_score m > 0
          then courses_loop missing_skills sk rest
                 (all_courses @
                  [\<lparr>course = c, match_score = m,
                    target_skill_level = occupation_skill_level sk,
                    suitable_for_experience =
                      (case experience_level sk of None \<Rightarrow> ''Beginner'' | Some x \<Rightarrow> x)\<rparr>])
          else courses_loop missing_skills sk rest all_courses)"

text \<open>The loop \<^verbatim>\<open>for skill in missing_skills\<close> of the aggregator. Besides \<^verbatim>\<open>all_courses\<close> it
  records the queries passed to \<^verbatim>\<open>get_coursera_courses\<close>, in call order.\<close>

fun fetch_loop ::
  "(string \<Rightarrow> error + json) \<Rightarrow> missing_skill list \<Rightarrow> missing_skill list \<Rightarrow>
   recommendation list \<Rightarrow> string list \<Rightarrow> (error + recommendation list) \<times> string list" where
  "fetch_loop request missing_skills [] all_courses queries = (Inr all_courses, queries)"
| "fetch_loop request missing_skills (sk # rest) all_courses queries =
     (let courses = get_coursera_courses request (skill_label sk);
          queries' = queries @ [skill_label sk]
      in
        if \<not> truthy courses then fetch_loop request missing_skills rest all_courses queries'
        else
          case contains ''elements'' courses of Inl e \<Rightarrow> (Inl e, queries')
          | Inr present \<Rightarrow>
              if \<not> present then fetch_loop request missing_skills rest all_courses queries'
              else
                (case subscript courses ''elements'' of Inl e \<Rightarrow> (Inl e, queries')
                 | Inr v \<Rightarrow>
                (case iterate v of Inl e \<Rightarrow> (Inl e, queries')
                 | Inr cs \<Rightarrow>
                (case courses_loop missing_skills sk cs all_courses of Inl e \<Rightarrow> (Inl e, queries')
                 | Inr all_courses' \<Rightarrow>
                     fetch_loop request missing_skills rest all_courses' queries'))))"

text \<open>\<^verbatim>\<open>list.sort(key=..., reverse=True)\<close>: the list is reversed, sorted stably in ascending
  order, and reversed again. \<^verbatim>\<open>xs[:k]\<close> counts a negative \<open>k\<close> from the end.\<close>

definition sort_reverse :: "('a \<Rightarrow> real) \<Rightarrow> 'a list \<Rightarrow> 'a list" where
  "sort_reverse key xs = rev (sort_key key (rev xs))"

definition slice_to :: "int \<Rightarrow> 'a list \<Rightarrow> 'a list" where
  "slice_to k xs = (if 0 \<le> k then take (nat k) xs else take (length xs - nat (- k)) xs)"

text \<open>
  \<^verbatim>\<open>get_course_recommendations_cached(_kg, employee_id, target_occupation, top_k)\<close>. The
  method \<^verbatim>\<open>_kg.get_missing_skills\<close> is a parameter (it may raise); the result is paired with
  the queries sent to the course source.
\<close>

definition get_course_recommendations_cached ::
  "(string \<Rightarrow> error + json) \<Rightarrow> ('e \<Rightarrow> 'o \<Rightarrow> error + missing_skill list) \<Rightarrow> 'e \<Rightarrow> 'o \<Rightarrow> int \<Rightarrow>
   (error + recommendation list) \<times> string list" where
  "get_course_recommendations_cached request get_missing_skills employee_id target_occupation top_k =
     (case get_missing_skills employee_id target_occupation of
        Inl e \<Rightarrow> (Inl e, [])
      | Inr missing_skills \<Rightarrow>
          if missing_skills = [] then (Inr [], [])
          else
            (case fetch_loop request missing_skills missing_skills [] [] of
               (Inl e, queries) \<Rightarrow> (Inl e, queries)
             | (Inr all_courses, queries) \<Rightarrow>
                 (Inr (slice_to top_k
                        (sort_reverse (\<lambda>x. total_score (match_score x)) all_courses)),
                  queries)))"


section \<open>Inputs of the examples\<close>

text \<open>Two missing skills, some courses as the course source lists them, a source that answers
  the query \<^verbatim>\<open>SQL\<close> and fails on every other, a source that lists \<^verbatim>\<open>null\<close> as a course, one whose
  \<^verbatim>\<open>elements\<close> is \<^verbatim>\<open>null\<close>, and three outcomes of the taxonomy lookup.\<close>

definition essential_sql :: missing_skill where
  "essential_sql =
     \<lparr>skill_label = ''SQL'', occupation_skill_level = ''essential'', experience_level = None\<rparr>"

definition optional_ml :: missing_skill where
  "optional_ml =
     \<lparr>skill_label = ''ml'', occupation_skill_level = ''optional'',
      experience_level = Some ''Advanced''\<rparr>"

definition sql_course :: json where
  "sql_course = JObj [(''name'', JStr ''Sql''), (''description'', JStr ''x'')]"

definition described_course :: json where
  "described_course = JObj [(''name'', JStr ''x''), (''description'', JStr ''SQL'')]"

definition yoga_course :: json where
  "yoga_course = JObj [(''name'', JStr ''Yoga''), (''slug'', JStr ''yoga-1'')]"

definition sql_course_2 :: json where
  "sql_course_2 = JObj [(''name'', JStr ''SQL''), (''slug'', JStr ''sql-2'')]"

definition sql_course_3 :: json where
  "sql_course_3 = JObj [(''name'', JStr ''sql''), (''description'', JStr ''SQL'')]"

definition example_source :: "string \<Rightarrow> error + json" where
  "example_source query =
     (if query = ''SQL''
      then Inr (JObj [(''elements'', JArr [yoga_course, sql_course, sql_course_2, sql_course_3])])
      else Inl RequestException)"

definition example_gap :: "nat \<Rightarrow> nat \<Rightarrow> error + missing_skill list" where
  "example_gap employee_id target_occupation = Inr [optional_ml, essential_sql]"

definition no_gap :: "nat \<Rightarrow> nat \<Rightarrow> error + missing_skill list" where
  "no_gap employee_id target_occupation = Inr []"

definition null_item_source :: "string \<Rightarrow> error + json" where
  "null_item_source query = Inr (JObj [(''elements'', JArr [JNull])])"

definition null_elements_source :: "string \<Rightarrow> error + json" where
  "null_elements_source query = Inr (JObj [(''elements'', JNull)])"

definition sql_gap :: "nat \<Rightarrow> nat \<Rightarrow> error + missing_skill list" where
  "sql_gap employee_id target_occupation = Inr [essential_sql]"

definition failing_gap :: "nat \<Rightarrow> nat \<Rightarrow> error + missing_skill list" where
  "failing_gap employee_id target_occupation = Inl TaxonomyError"


section \<open>Auxiliary notions\<close>

text \<open>The sum of the sizes of a list of blocks, and what the windows on the stack of
  \<^verbatim>\<open>get_matching_blocks\<close> still offer in \<open>a\<close> and in \<open>b\<close>.\<close>

definition sizes :: "match list \<Rightarrow> nat" where
  "sizes blocks = sum_list (map (\<lambda>triple. snd (snd triple)) blocks)"

definition a_room :: "window list \<Rightarrow> nat" where
  "a_room queue = (\<Sum>(alo, ahi, blo, bhi)\<leftarrow>queue. ahi - alo)"

definition b_room :: "window list \<Rightarrow> nat" where
  "b_room queue = (\<Sum>(alo, ahi, blo, bhi)\<leftarrow>queue. bhi - blo)"

text \<open>\<open>run s i\<close> is the number of consecutive elements of \<open>s\<close> that are not popular, ending
  at position \<open>i\<close>; \<open>diag_best\<close> and \<open>diag_row\<close> are the invariants of the search when \<open>s\<close> is
  compared with itself.\<close>

fun run :: "'a list \<Rightarrow> nat \<Rightarrow> nat" where
  "run s 0 = (if popular s (s ! 0) then 0 else 1)"
| "run s (Suc i) = (if popular s (s ! Suc i) then 0 else Suc (run s i))"

definition prev_run :: "'a list \<Rightarrow> nat \<Rightarrow> nat" where
  "prev_run s i = (if i = 0 then 0 else run s (i - 1))"

definition diag_best :: "'a list \<Rightarrow> nat \<Rightarrow> match \<Rightarrow> bool" where
  "diag_best s i best \<longleftrightarrow>
     (case best of (besti, bestj, bestsize) \<Rightarrow>
        besti = bestj \<and> besti + bestsize \<le> i \<and> (\<forall>i'<i. run s i' \<le> bestsize))"

definition diag_row :: "'a list \<Rightarrow> nat \<Rightarrow> (nat \<rightharpoonup> nat) \<Rightarrow> bool" where
  "diag_row s i j2len \<longleftrightarrow>
     (\<forall>j. j2lenget j2len j \<le> prev_run s i \<and> j2lenget j2len j \<le> prev_run s j) \<and>
     j2lenget j2len i = prev_run s i"

text \<open>\<open>combined\<close> is the value of \<^verbatim>\<open>skill_score\<close>, \<open>weight\<close> the factor of line 90 and
  \<open>entry\<close> the dictionary appended to \<^verbatim>\<open>matched_skills\<close>.\<close>

definition combined :: "string \<Rightarrow> string \<Rightarrow> string \<Rightarrow> real" where
  "combined label course_name course_description =
     ratio (lower label) (lower course_name) * 0.7 + ratio (lower label) (lower course_description) * 0.3"

definition entry :: "missing_skill \<Rightarrow> real \<Rightarrow> matched_skill" where
  "entry sk s = \<lparr>skill = lower (skill_label sk), score = s, level = occupation_skill_level sk\<rparr>"

definition weight :: "string \<Rightarrow> real" where
  "weight lv = (if lv = ''essential'' then 2 else 1)"

text \<open>The invariant of the two loops of the evaluator: the total is the weighted sum of the
  scores recorded, and every recorded score is above the threshold.\<close>

definition weighted :: "matched_skill list \<Rightarrow> real" where
  "weighted matched = (\<Sum>e\<leftarrow>matched. score e * weight (level e))"

definition consistent :: "real \<times> matched_skill list \<Rightarrow> bool" where
  "consistent acc \<longleftrightarrow> fst acc = weighted (snd acc) \<and> (\<forall>e\<in>set (snd acc). score e > 0.3)"

text \<open>The loop over the missing skills in closed form: \<open>hit\<close> holds for the skills above the
  threshold.\<close>

definition hit :: "string \<Rightarrow> string \<Rightarrow> missing_skill \<Rightarrow> bool" where
  "hit n d sk \<longleftrightarrow> combined (lower (skill_label sk)) n d > 0.3"

definition hit_entry :: "string \<Rightarrow> string \<Rightarrow> missing_skill \<Rightarrow> matched_skill" where
  "hit_entry n d sk = entry sk (combined (lower (skill_label sk)) n d)"

definition hit_score :: "string \<Rightarrow> string \<Rightarrow> missing_skill \<Rightarrow> real" where
  "hit_score n d sk = combined (lower (skill_label sk)) n d * weight (occupation_skill_level sk)"

text \<open>Elements the evaluator can read: an object whose name and description, where present,
  are strings.\<close>

fun is_str :: "json \<Rightarrow> bool" where
  "is_str (JStr s) = True"
| "is_str JNull = False"
| "is_str (JBool b) = False"
| "is_str (JNum r) = False"
| "is_str (JArr xs) = False"
| "is_str (JObj kvs) = False"

definition field_ok :: "(string \<times> json) list \<Rightarrow> string \<Rightarrow> bool" where
  "field_ok kvs key = (case map_of kvs key of None \<Rightarrow> True | Some v \<Rightarrow> is_str v)"

fun element_ok :: "json \<Rightarrow> bool" where
  "element_ok (JObj kvs) = (field_ok kvs ''name'' \<and> field_ok kvs ''description'')"
| "element_ok JNull = False"
| "element_ok (JBool b) = False"
| "element_ok (JNum r) = False"
| "element_ok (JStr s) = False"
| "element_ok (JArr xs) = False"

text \<open>Elements that are objects; on anything else \<^verbatim>\<open>element.get\<close> raises.\<close>

fun is_obj :: "json \<Rightarrow> bool" where
  "is_obj (JObj kvs) = True"
| "is_obj JNull = False"
| "is_obj (JBool b) = False"
| "is_obj (JNum r) = False"
| "is_obj (JStr s) = False"
| "is_obj (JArr xs) = False"

text \<open>Answers of the course source that the aggregator can read: \<^verbatim>\<open>None\<close> (a failed request),
  or an object whose \<^verbatim>\<open>elements\<close>, if present, is a list of readable elements. \<open>no_items\<close>
  holds for the answers that contribute no course.\<close>

fun payload_ok :: "json \<Rightarrow> bool" where
  "payload_ok JNull = True"
| "payload_ok (JObj kvs) =
     (case map_of kvs ''elements'' of
        None \<Rightarrow> True
      | Some (JArr cs) \<Rightarrow> list_all element_ok cs
      | Some _ \<Rightarrow> False)"
| "payload_ok (JBool b) = False"
| "payload_ok (JNum r) = False"
| "payload_ok (JStr s) = False"
| "payload_ok (JArr xs) = False"

fun no_items :: "json \<Rightarrow> bool" where
  "no_items JNull = True"
| "no_items (JObj kvs) =
     (case map_of kvs ''elements'' of None \<Rightarrow> True | Some v \<Rightarrow> v = JArr [])"
| "no_items (JBool b) = False"
| "no_items (JNum r) = False"
| "no_items (JStr s) = False"
| "no_items (JArr xs) = False"

text \<open>What one missing skill contributes to \<^verbatim>\<open>all_courses\<close>: the entries of the courses in
  the answer to its query whose total score is above 0, in the order of the answer; nothing
  when the answer lists no course.\<close>

definition scored_item :: "missing_skill list \<Rightarrow> missing_skill \<Rightarrow> json \<Rightarrow> recommendation list" where
  "scored_item missing_skills sk c =
     (case calculate_course_match_score (JObj [(''elements'', JArr [c])]) missing_skills of
        Inr (Match_Dict m) \<Rightarrow>
          if total_score m > 0
          then [\<lparr>course = c, match_score = m,
                  target_skill_level = occupation_skill_level sk,
                  suitable_for_experience =
                    (case experience_level sk of None \<Rightarrow> ''Beginner'' | Some x \<Rightarrow> x)\<rparr>]
          else []
      | _ \<Rightarrow> [])"

definition contribution ::
  "(string \<Rightarrow> error + json) \<Rightarrow> missing_skill list \<Rightarrow> missing_skill \<Rightarrow> recommendation list" where
  "contribution request missing_skills sk =
     (case get_coursera_courses request (skill_label sk) of
        JObj kvs \<Rightarrow>
          (case map_of kvs ''elements'' of
             Some (JArr cs) \<Rightarrow> concat (map (scored_item missing_skills sk) cs)
           | _ \<Rightarrow> [])
      | _ \<Rightarrow> [])"

text \<open>The sort key of the aggregator.\<close>

abbreviation rank :: "recommendation \<Rightarrow> real" where
  "rank r \<equiv> total_score (match_score r)"


section \<open>Properties of the matcher\<close>

subsection \<open>The ratio lies between 0 and 1\<close>

text \<open>
  The blocks found lie in disjoint parts of \<open>a\<close> and of \<open>b\<close>: the sizes collected by the loop
  never exceed what the windows on the stack still offer (\<open>a_room\<close>, \<open>b_room\<close>).
\<close>

lemma sizes_simps [simp]:
  "sizes [] = 0" "sizes ((i, j, k) # blocks) = k + sizes blocks"
  "sizes (xs @ ys) = sizes xs + sizes ys"
  by (simp_all add: sizes_def)

lemma sizes_Cons: "sizes (x # xs) = snd (snd x) + sizes xs"
  by (simp add: sizes_def)

lemma sizes_insort: "sizes (insort x xs) = snd (snd x) + sizes xs"
  by (induction xs) (simp_all add: sizes_Cons)

lemma sizes_sort: "sizes (sort xs) = sizes xs"
  by (induction xs) (simp_all add: sizes_insort sizes_Cons)

lemma sizes_collapse:
  "sizes (collapse blocks (i1, j1, k1) non_adjacent) = sizes blocks + k1 + sizes non_adjacent"
  by (induction blocks "(i1, j1, k1)" non_adjacent arbitrary: i1 j1 k1 rule: collapse.induct) auto

lemma blocks_loop_sizes:
  "sizes (blocks_loop a b queue matching_blocks) \<le> sizes matching_blocks + a_room queue \<and>
   sizes (blocks_loop a b queue matching_blocks) \<le> sizes matching_blocks + b_room queue"
proof (induction a b queue matching_blocks rule: blocks_loop.induct)
  case (1 a b matching_blocks)
  then show ?case by simp
next
  case (2 a b alo ahi blo bhi queue matching_blocks)
  obtain i j k where f: "find_longest_match a b alo ahi blo bhi = (i, j, k)"
    by (cases "find_longest_match a b alo ahi blo bhi") auto
  show ?case
  proof (cases "k = 0")
    case True
    have "blocks_loop a b ((alo, ahi, blo, bhi) # queue) matching_blocks =
          blocks_loop a b queue matching_blocks"
      using f True by simp
    with 2(2)[OF f[symmetric] refl] True show ?thesis
      by (simp add: a_room_def b_room_def del: blocks_loop.simps)
  next
    case False
    define queue' where "queue' =
      (if i + k < ahi \<and> j + k < bhi then [(i + k, ahi, j + k, bhi)] else []) @
      (if alo < i \<and> blo < j then [(alo, i, blo, j)] else []) @ queue"
    note w = find_longest_match_bounds[OF f False]
    have step: "blocks_loop a b ((alo, ahi, blo, bhi) # queue) matching_blocks =
          blocks_loop a b queue' (matching_blocks @ [(i, j, k)])"
      using f False by (simp add: queue'_def)
    have ra: "a_room queue' + k \<le> a_room ((alo, ahi, blo, bhi) # queue)"
      using w by (auto simp: queue'_def a_room_def)
    have rb: "b_room queue' + k \<le> b_room ((alo, ahi, blo, bhi) # queue)"
      using w by (auto simp: queue'_def b_room_def)
    from 2(1)[OF f[symmetric] refl False, folded queue'_def] ra rb show ?thesis
      unfolding step by simp
  qed
qed

lemma get_matching_blocks_sizes:
  "sizes (get_matching_blocks a b) \<le> length a" "sizes (get_matching_blocks a b) \<le> length b"
  using blocks_loop_sizes[of a b "[(0, length a, 0, length b)]" "[]"]
  by (simp_all add: get_matching_blocks_def Let_def sizes_collapse sizes_sort a_room_def b_room_def)

lemma ratio_bounds: "0 \<le> ratio a b \<and> ratio a b \<le> 1"
proof -
  have "2 * sizes (get_matching_blocks a b) \<le> length a + length b"
    using get_matching_blocks_sizes[of a b] by simp
  then have "2 * real (sizes (get_matching_blocks a b)) \<le> real (length a + length b)"
    by (metis of_nat_le_iff of_nat_mult of_nat_numeral)
  then show ?thesis
    by (simp add: ratio_def calculate_ratio_def sizes_def[symmetric] divide_le_eq)
qed

lemma ratio_empty_right: "a \<noteq> [] \<Longrightarrow> ratio a [] = 0"
  using get_matching_blocks_sizes(2)[of a "[]"]
  by (simp add: ratio_def calculate_ratio_def sizes_def[symmetric])

subsection \<open>A sequence compared with itself\<close>

text \<open>
  Comparing \<open>s\<close> with itself, the first longest run of elements that are not popular is found
  on the diagonal (\<open>besti = bestj\<close>), and the two extension loops then grow it to the whole of
  \<open>s\<close>.
\<close>

lemma run_unpopular: "\<not> popular s (s ! i) \<Longrightarrow> run s i = Suc (prev_run s i)"
  by (cases i) (simp_all add: prev_run_def)

lemma run_popular: "popular s (s ! i) \<Longrightarrow> run s i = 0"
  by (cases i) simp_all

lemma run_le: "run s i \<le> Suc i"
  by (induction i) auto

text \<open>The inner loop on row i of the comparison of s with itself; the pending positions js are
  ascending and hold the same element as position i.\<close>

lemma match_row_diag:
  assumes "diag_row s i j2len" "\<not> popular s (s ! i)" "i < length s"
    and "sorted_wrt (<) js" "\<forall>j\<in>set js. j < length s \<and> s ! j = s ! i"
    and "case best of (besti, bestj, bestsize) \<Rightarrow>
           besti = bestj \<and> besti + bestsize \<le> Suc i \<and> (\<forall>i'<i. run s i' \<le> bestsize)"
    and "\<forall>j v. new j = Some v \<longrightarrow> v \<le> run s i \<and> v \<le> run s j"
    and "i \<in> set js \<or> ((\<forall>j\<in>set js. i < j) \<and> run s i \<le> snd (snd best) \<and> new i = Some (run s i))"
    and "match_row i 0 (length s) j2len js (new, best) = (new', best')"
  shows "diag_best s (Suc i) best' \<and>
         (\<forall>j v. new' j = Some v \<longrightarrow> v \<le> run s i \<and> v \<le> run s j) \<and> new' i = Some (run s i)"
  using assms(4-)
proof (induction js arbitrary: new best)
  case Nil
  then show ?case by (auto simp: diag_best_def less_Suc_eq)
next
  case (Cons j js)
  obtain bi bj bs where best: "best = (bi, bj, bs)" by (cases best) auto
  from Cons.prems(2) have j: "j < length s" "s ! j = s ! i" by auto
  define k where "k = j2lenget j2len j + 1"
  have runj: "run s j = Suc (prev_run s j)" and runi: "run s i = Suc (prev_run s i)"
    using assms(2) j by (simp_all add: run_unpopular)
  have k_le: "k \<le> run s i" "k \<le> run s j"
    using assms(1) runi runj by (auto simp: diag_row_def k_def)
  have new_ok: "\<forall>j' v. (new(j \<mapsto> k)) j' = Some v \<longrightarrow> v \<le> run s i \<and> v \<le> run s j'"
    using Cons.prems(4) k_le by auto
  have sorted: "sorted_wrt (<) js" and all: "\<forall>j\<in>set js. j < length s \<and> s ! j = s ! i"
    and j_lt: "\<forall>j'\<in>set js. j < j'"
    using Cons.prems(1,2) by auto
  consider (before) "j < i" | (at) "j = i" | (after) "i < j" by linarith
  then show ?case
  proof cases
    case before
    with Cons.prems(5) have i_in: "i \<in> set js" by auto
    from before Cons.prems(3) best have "run s j \<le> bs" by auto
    with k_le have "\<not> bs < k" by simp
    with Cons.prems(6) best have
      r: "match_row i 0 (length s) j2len js (new(j \<mapsto> k), best) = (new', best')"
      using j by (simp add: k_def Let_def)
    show ?thesis
      by (rule Cons.IH[OF sorted all Cons.prems(3) new_ok _ r]) (simp add: i_in)
  next
    case at
    have k_eq: "k = run s i"
      using assms(1) runi at by (simp add: diag_row_def k_def)
    show ?thesis
    proof (cases "bs < k")
      case True
      with Cons.prems(6) best have
        r: "match_row i 0 (length s) j2len js (new(j \<mapsto> k), i + 1 - k, j + 1 - k, k) = (new', best')"
        using j by (simp add: k_def Let_def)
      have b: "case (i + 1 - k, j + 1 - k, k) of (besti, bestj, bestsize) \<Rightarrow>
           besti = bestj \<and> besti + bestsize \<le> Suc i \<and> (\<forall>i'<i. run s i' \<le> bestsize)"
        using at k_eq run_le[of s i] True Cons.prems(3) best by auto
      show ?thesis
        by (rule Cons.IH[OF sorted all b new_ok _ r]) (use at k_eq j_lt in auto)
    next
      case False
      with Cons.prems(6) best have
        r: "match_row i 0 (length s) j2len js (new(j \<mapsto> k), best) = (new', best')"
        using j by (simp add: k_def Let_def)
      show ?thesis
        by (rule Cons.IH[OF sorted all Cons.prems(3) new_ok _ r])
           (use at k_eq j_lt False best in auto)
    qed
  next
    case after
    with Cons.prems(5) j_lt have fin: "run s i \<le> bs" "new i = Some (run s i)" "\<forall>j\<in>set js. i < j"
      using best by fastforce+
    with k_le have "\<not> bs < k" by simp
    with Cons.prems(6) best have
      r: "match_row i 0 (length s) j2len js (new(j \<mapsto> k), best) = (new', best')"
      using j by (simp add: k_def Let_def)
    show ?thesis
      by (rule Cons.IH[OF sorted all Cons.prems(3) new_ok _ r])
         (use after fin best in auto)
  qed
qed

lemma diag_row_empty: "prev_run s i = 0 \<Longrightarrow> diag_row s i Map.empty"
  by (simp add: diag_row_def j2lenget_def)

lemma match_row_self:
  assumes "diag_row s i j2len" "diag_best s i best" "i < length s"
    and "match_row i 0 (length s) j2len (chain_b s (s ! i)) (Map.empty, best) = (new', best')"
  shows "diag_row s (Suc i) new' \<and> diag_best s (Suc i) best'"
proof (cases "popular s (s ! i)")
  case True
  with assms(4) have "new' = Map.empty" "best' = best" by (simp_all add: chain_b_def)
  moreover have "diag_best s (Suc i) best"
    using assms(2) True by (auto simp: diag_best_def less_Suc_eq run_popular)
  moreover have "diag_row s (Suc i) Map.empty"
    using True by (intro diag_row_empty) (simp add: prev_run_def run_popular)
  ultimately show ?thesis by simp
next
  case False
  let ?js = "filter (\<lambda>j. s ! j = s ! i) [0..<length s]"
  have js: "chain_b s (s ! i) = ?js" using False by (simp add: chain_b_def)
  have 1: "sorted_wrt (<) ?js" by (intro sorted_wrt_filter) simp
  have 2: "\<forall>j\<in>set ?js. j < length s \<and> s ! j = s ! i" by simp
  have 3: "case best of (besti, bestj, bestsize) \<Rightarrow>
           besti = bestj \<and> besti + bestsize \<le> Suc i \<and> (\<forall>i'<i. run s i' \<le> bestsize)"
    using assms(2) by (auto simp: diag_best_def)
  have 4: "\<forall>j v. Map.empty j = Some v \<longrightarrow> v \<le> run s i \<and> v \<le> run s j" by simp
  have 5: "i \<in> set ?js \<or>
      ((\<forall>j\<in>set ?js. i < j) \<and> run s i \<le> snd (snd best) \<and> Map.empty i = Some (run s i))"
    using assms(3) by simp
  from match_row_diag[OF assms(1) False assms(3) 1 2 3 4 5 assms(4)[unfolded js]]
  have best': "diag_best s (Suc i) best'"
    and new': "\<forall>j v. new' j = Some v \<longrightarrow> v \<le> run s i \<and> v \<le> run s j" "new' i = Some (run s i)"
    by blast+
  have "j2lenget new' j \<le> prev_run s (Suc i) \<and> j2lenget new' j \<le> prev_run s j" for j
    using new'(1) by (cases "new' (j - 1)") (auto simp: j2lenget_def prev_run_def)
  moreover have "j2lenget new' (Suc i) = prev_run s (Suc i)"
    using new'(2) by (simp add: j2lenget_def prev_run_def)
  ultimately have "diag_row s (Suc i) new'" by (simp add: diag_row_def)
  with best' show ?thesis by simp
qed

lemma match_rows_self:
  assumes "is = [i0..<length s]" "diag_row s i0 j2len" "diag_best s i0 best" "i0 \<le> length s"
  shows "diag_best s (length s) (match_rows s s 0 (length s) is (j2len, best))"
  using assms
proof (induction "is" arbitrary: i0 j2len best)
  case Nil
  from Nil.prems(1)[symmetric] Nil.prems(4) have "i0 = length s" by auto
  with Nil.prems(3) show ?case by simp
next
  case (Cons i "is")
  from Cons.prems(1)[symmetric] have i: "i = i0" "i0 < length s" and rest: "is = [Suc i0..<length s]"
    by (auto simp: upt_eq_Cons_conv)
  obtain new' best' where
    r: "match_row i 0 (length s) j2len (chain_b s (s ! i)) (Map.empty, best) = (new', best')"
    by (cases "match_row i 0 (length s) j2len (chain_b s (s ! i)) (Map.empty, best)") auto
  from match_row_self[OF _ _ _ r] Cons.prems(2,3) i
  have ok: "diag_row s (Suc i0) new'" "diag_best s (Suc i0) best'" by auto
  from Cons.IH[OF rest ok] i r show ?case by simp
qed

lemma extend_down_self:
  "extend_down (\<lambda>x. \<not> isbjunk x) s s 0 0 (i, i, k) = (0, 0, i + k)"
proof (induction i arbitrary: k)
  case 0
  then show ?case by (subst extend_down.simps) simp
next
  case (Suc i)
  then show ?case by (subst extend_down.simps) (simp add: isbjunk_def)
qed

lemma extend_up_self:
  "k \<le> length s \<Longrightarrow> extend_up (\<lambda>x. \<not> isbjunk x) s s (length s) (length s) (0, 0, k) = (0, 0, length s)"
proof (induction "length s - k" arbitrary: k)
  case 0
  then show ?case by (subst extend_up.simps) simp
next
  case (Suc d)
  from Suc.hyps(2) have lt: "k < length s" by simp
  with Suc.hyps(2) have "d = length s - Suc k" "Suc k \<le> length s" by simp_all
  from Suc.hyps(1)[OF this]
  have "extend_up (\<lambda>x. \<not> isbjunk x) s s (length s) (length s) (0, 0, Suc k) = (0, 0, length s)" .
  with lt show ?case by (subst extend_up.simps) (simp add: isbjunk_def)
qed

lemma extend_down_junk: "extend_down isbjunk a b alo blo best = best"
  by (cases best) (simp add: extend_down.simps isbjunk_def)

lemma extend_up_junk: "extend_up isbjunk a b ahi bhi best = best"
  by (cases best) (simp add: extend_up.simps isbjunk_def)

lemma find_longest_match_self:
  "find_longest_match s s 0 (length s) 0 (length s) = (0, 0, length s)"
proof -
  obtain i j k where m: "match_rows s s 0 (length s) [0..<length s] (Map.empty, 0, 0, 0) = (i, j, k)"
    by (cases "match_rows s s 0 (length s) [0..<length s] (Map.empty, 0, 0, 0)") auto
  have "diag_best s (length s) (match_rows s s 0 (length s) [0..<length s] (Map.empty, 0, 0, 0))"
  proof (rule match_rows_self)
    show "diag_row s 0 Map.empty" by (rule diag_row_empty) (simp add: prev_run_def)
    show "diag_best s 0 (0, 0, 0)" by (simp add: diag_best_def)
  qed simp_all
  with m have d: "j = i" "i + k \<le> length s" by (simp_all add: diag_best_def)
  show ?thesis
    unfolding find_longest_match_def Let_def m extend_down_junk extend_up_junk
    using d by (simp add: extend_down_self extend_up_self)
qed

lemma ratio_self: "ratio s s = 1"
proof (cases "s = []")
  case True
  then show ?thesis
    by (simp add: ratio_def calculate_ratio_def)
next
  case False
  have "blocks_loop s s [(0, length s, 0, length s)] [] = [(0, 0, length s)]"
    using False by (simp add: find_longest_match_self)
  then have "sizes (get_matching_blocks s s) = length s"
    by (simp add: get_matching_blocks_def Let_def sizes_collapse sizes_sort)
  with False show ?thesis
    by (simp add: ratio_def calculate_ratio_def sizes_def[symmetric])
qed


section \<open>Properties of the evaluator\<close>

lemma calculate_skill_match_strings:
  "calculate_skill_match (JStr a) (JStr b) = Inr (ratio (lower a) (lower b))"
  by (simp add: calculate_skill_match_def)

lemma skill_score_combined:
  "skill_score label course_name course_description = Inr (combined label course_name course_description)"
  by (simp add: skill_score_def combined_def calculate_skill_match_strings)

lemma combined_bounds: "0 \<le> combined l n d" "combined l n d \<le> 1"
proof -
  have "0 \<le> ratio (lower l) (lower n)" "ratio (lower l) (lower n) \<le> 1"
       "0 \<le> ratio (lower l) (lower d)" "ratio (lower l) (lower d) \<le> 1"
    using ratio_bounds by blast+
  then show "0 \<le> combined l n d" "combined l n d \<le> 1"
    by (simp_all add: combined_def)
qed

lemma skills_loop_Cons:
  "skills_loop n d (sk # rest) (tot, matched) =
     (let s = combined (lower (skill_label sk)) n d in
      if s > 0.3
      then skills_loop n d rest (tot + s * weight (occupation_skill_level sk), matched @ [entry sk s])
      else skills_loop n d rest (tot, matched))"
  by (simp add: skill_score_combined Let_def entry_def weight_def)

lemma skills_loop_total: "\<exists>acc'. skills_loop n d ms acc = Inr acc'"
proof (induction ms arbitrary: acc)
  case Nil
  then show ?case by simp
next
  case (Cons sk ms)
  obtain tot matched where "acc = (tot, matched)" by (cases acc)
  with Cons show ?case by (simp only: skills_loop_Cons Let_def split: if_splits) simp
qed

lemma skills_loop_append:
  "skills_loop n d (xs @ ys) acc =
     (case skills_loop n d xs acc of Inl e \<Rightarrow> Inl e | Inr acc' \<Rightarrow> skills_loop n d ys acc')"
proof (induction xs arbitrary: acc)
  case Nil
  then show ?case by simp
next
  case (Cons sk xs)
  obtain tot matched where "acc = (tot, matched)" by (cases acc)
  with Cons show ?case by (simp only: skills_loop_Cons Let_def append_Cons split: if_splits) simp
qed

lemma consistent_step:
  assumes "consistent (tot, matched)" "s > 0.3"
  shows "consistent (tot + s * weight (occupation_skill_level sk), matched @ [entry sk s])"
  using assms by (auto simp: consistent_def weighted_def entry_def)

lemma skills_loop_consistent:
  "consistent acc \<Longrightarrow> skills_loop n d ms acc = Inr acc' \<Longrightarrow> consistent acc'"
proof (induction ms arbitrary: acc)
  case Nil
  then show ?case by simp
next
  case (Cons sk ms)
  obtain tot matched where acc: "acc = (tot, matched)" by (cases acc)
  show ?case
  proof (cases "combined (lower (skill_label sk)) n d > 0.3")
    case True
    with Cons.prems(2) acc have
      "skills_loop n d ms (tot + combined (lower (skill_label sk)) n d * weight (occupation_skill_level sk),
         matched @ [entry sk (combined (lower (skill_label sk)) n d)]) = Inr acc'"
      by (simp only: skills_loop_Cons Let_def if_True)
    from Cons.IH[OF consistent_step[OF Cons.prems(1)[unfolded acc] True] this] show ?thesis .
  next
    case False
    with Cons.prems(2) acc have "skills_loop n d ms (tot, matched) = Inr acc'"
      by (simp only: skills_loop_Cons Let_def if_False)
    from Cons.IH[OF Cons.prems(1)[unfolded acc] this] show ?thesis .
  qed
qed

lemma elements_loop_consistent:
  "consistent acc \<Longrightarrow> elements_loop elements ms acc = Inr acc' \<Longrightarrow> consistent acc'"
proof (induction elements arbitrary: acc)
  case Nil
  then show ?case by simp
next
  case (Cons element elements)
  from Cons.prems(2) obtain n d acc1 where
    "text_field element ''name'' = Inr n" "text_field element ''description'' = Inr d"
    and 1: "skills_loop n d ms acc = Inr acc1" and 2: "elements_loop elements ms acc1 = Inr acc'"
    by (auto split: sum.splits)
  from Cons.IH[OF skills_loop_consistent[OF Cons.prems(1) 1] 2] show ?case .
qed

lemma sum_list_pos:
  fixes f :: "'a \<Rightarrow> real"
  assumes "\<forall>x\<in>set xs. 0 < f x" "xs \<noteq> []"
  shows "0 < sum_list (map f xs)"
proof (cases xs)
  case Nil
  with assms(2) show ?thesis by simp
next
  case (Cons x ys)
  have "0 \<le> sum_list (map f ys)"
    by (rule sum_list_nonneg) (use assms(1) Cons in \<open>auto intro: less_imp_le\<close>)
  moreover have "0 < f x" using assms(1) Cons by simp
  ultimately show ?thesis using Cons by (simp add: add_pos_nonneg)
qed

lemma weighted_pos:
  assumes "\<forall>e\<in>set matched. score e > 0.3" "matched \<noteq> []"
  shows "0 < weighted matched"
proof -
  have "\<forall>e\<in>set matched. 0 < score e * weight (level e)"
    using assms(1) by (auto simp: weight_def intro!: mult_pos_pos)
  from sum_list_pos[OF this assms(2)] show ?thesis by (simp add: weighted_def)
qed

lemma consistent_positive: "consistent (tot, matched) \<Longrightarrow> (0 < tot \<longleftrightarrow> matched \<noteq> [])"
  using weighted_pos[of matched] by (auto simp: consistent_def weighted_def)

lemma evaluation_consistent:
  assumes "calculate_course_match_score c ms = Inr (Match_Dict m)"
  shows "consistent (total_score m, matched_skills m)"
proof -
  from assms obtain elements tot matched where
    l: "elements_loop elements ms (0, []) = Inr (tot, matched)"
    and m: "m = \<lparr>total_score = tot, matched_skills = matched\<rparr>"
    by (auto simp: calculate_course_match_score_def split: if_splits sum.splits)
  have "consistent (0, [])" by (simp add: consistent_def weighted_def)
  from elements_loop_consistent[OF this l] m show ?thesis by simp
qed

lemma skills_loop_eq:
  "skills_loop n d ms (tot, matched) =
     Inr (tot + sum_list (map (hit_score n d) (filter (hit n d) ms)),
          matched @ map (hit_entry n d) (filter (hit n d) ms))"
proof (induction ms arbitrary: tot matched)
  case Nil
  then show ?case by simp
next
  case (Cons sk ms)
  show ?case
  proof (cases "hit n d sk")
    case True
    then have "combined (lower (skill_label sk)) n d > 0.3" by (simp add: hit_def)
    then have "skills_loop n d (sk # ms) (tot, matched) =
        skills_loop n d ms (tot + hit_score n d sk, matched @ [hit_entry n d sk])"
      by (simp only: skills_loop_Cons Let_def if_True hit_score_def hit_entry_def)
    with True show ?thesis by (simp only: Cons.IH) simp
  next
    case False
    then have "\<not> combined (lower (skill_label sk)) n d > 0.3" by (simp add: hit_def)
    then have "skills_loop n d (sk # ms) (tot, matched) = skills_loop n d ms (tot, matched)"
      by (simp only: skills_loop_Cons Let_def if_False)
    with False show ?thesis by (simp only: Cons.IH) simp
  qed
qed

lemma lower_method_not_str: "\<not> is_str x \<Longrightarrow> lower_method x = Inl AttributeError"
  by (cases x) simp_all

lemma lower_method_str: "is_str x \<Longrightarrow> \<exists>s. lower_method x = Inr s"
  by (cases x) simp_all

lemma text_field_missing: "map_of kvs key = None \<Longrightarrow> text_field (JObj kvs) key = Inr []"
  by (simp add: text_field_def lower_def)

lemma text_field_ok: "field_ok kvs key \<Longrightarrow> \<exists>s. text_field (JObj kvs) key = Inr s"
  using lower_method_str by (auto simp: text_field_def field_ok_def lower_def split: option.splits)

lemma element_ok_fields:
  assumes "element_ok element"
  obtains n d where "text_field element ''name'' = Inr n" "text_field element ''description'' = Inr d"
proof (cases element)
  case (JObj kvs)
  with assms text_field_ok[of kvs "''name''"] text_field_ok[of kvs "''description''"] that
  show ?thesis by auto
qed (use assms in simp_all)

lemma elements_loop_total:
  "list_all element_ok elements \<Longrightarrow> \<exists>acc'. elements_loop elements ms acc = Inr acc'"
proof (induction elements arbitrary: acc)
  case Nil
  then show ?case by simp
next
  case (Cons element elements)
  then have ok: "element_ok element" and rest: "list_all element_ok elements" by simp_all
  from ok obtain n d where f: "text_field element ''name'' = Inr n"
      "text_field element ''description'' = Inr d"
    by (rule element_ok_fields)
  obtain tot matched where acc: "acc = (tot, matched)" by (cases acc)
  from Cons.IH[OF rest] f show ?case
    by (simp add: acc skills_loop_eq)
qed

lemma score_single:
  assumes "text_field element ''name'' = Inr n" "text_field element ''description'' = Inr d"
  shows "calculate_course_match_score (JObj [(''elements'', JArr [element])]) ms =
         Inr (Match_Dict \<lparr>total_score = sum_list (map (hit_score n d) (filter (hit n d) ms)),
                          matched_skills = map (hit_entry n d) (filter (hit n d) ms)\<rparr>)"
  using assms by (simp add: calculate_course_match_score_def skills_loop_eq)

lemma skills_loop_skip:
  assumes "\<not> hit n d sk"
  shows "skills_loop n d (before @ sk # rest) acc = skills_loop n d (before @ rest) acc"
  using assms by (cases acc) (simp add: skills_loop_eq)

lemma lower_eq_Nil: "lower s = [] \<longleftrightarrow> s = []"
  by (simp add: lower_def)

lemma combined_no_name:
  assumes "label \<noteq> []"
  shows "combined label [] d \<le> 0.3"
proof -
  have "ratio (lower label) (lower []) = 0"
    using assms by (simp add: lower_def ratio_empty_right)
  moreover have "ratio (lower label) (lower d) \<le> 1" using ratio_bounds by blast
  ultimately show ?thesis by (simp add: combined_def)
qed

lemma text_field_not_obj: "\<not> is_obj element \<Longrightarrow> text_field element key = Inl AttributeError"
  by (cases element) (simp_all add: text_field_def)


section \<open>Properties of the aggregator\<close>

text \<open>Sorting and slicing: the result is a prefix of the stably sorted list.\<close>

lemma sort_reverse_sorted: "sorted_wrt (\<lambda>x y. key y \<le> key x) (sort_reverse key xs)"
proof -
  have "sorted (map key (sort_key key (rev xs)))" by (rule sorted_sort_key)
  then have "sorted_wrt (\<lambda>x y. key x \<le> key y) (sort_key key (rev xs))"
    by (simp add: sorted_wrt_map)
  then show ?thesis by (simp add: sort_reverse_def sorted_wrt_rev)
qed

lemma sort_reverse_stable:
  "filter (\<lambda>y. key y = k) (sort_reverse key xs) = filter (\<lambda>y. key y = k) xs"
  by (simp add: sort_reverse_def rev_filter[symmetric] sort_key_stable)

lemma set_sort_reverse: "set (sort_reverse key xs) = set xs"
  by (simp add: sort_reverse_def)

lemma slice_to_prefix: "prefix (slice_to k xs) xs"
  by (simp add: slice_to_def take_is_prefix)

lemma slice_to_length: "0 \<le> k \<Longrightarrow> int (length (slice_to k xs)) \<le> k"
  by (simp add: slice_to_def)

lemma sorted_wrt_prefix: "prefix xs ys \<Longrightarrow> sorted_wrt R ys \<Longrightarrow> sorted_wrt R xs"
  by (auto simp: prefix_def sorted_wrt_append)

lemma courses_loop_positive:
  assumes "courses_loop ms sk cs all_courses = Inr all'" "\<forall>r\<in>set all_courses. 0 < rank r"
  shows "\<forall>r\<in>set all'. 0 < rank r"
  using assms
proof (induction cs arbitrary: all_courses)
  case Nil
  then show ?case by simp
next
  case (Cons c cs)
  from Cons.prems(1) obtain m where
    m: "calculate_course_match_score (JObj [(''elements'', JArr [c])]) ms = Inr (Match_Dict m)"
    by (auto split: sum.splits evaluation.splits)
  show ?case
  proof (cases "0 < total_score m")
    case True
    let ?r = "\<lparr>course = c, match_score = m, target_skill_level = occupation_skill_level sk,
               suitable_for_experience =
                 (case experience_level sk of None \<Rightarrow> ''Beginner'' | Some x \<Rightarrow> x)\<rparr>"
    from Cons.prems(1) m True have "courses_loop ms sk cs (all_courses @ [?r]) = Inr all'" by simp
    moreover have "\<forall>r\<in>set (all_courses @ [?r]). 0 < rank r" using Cons.prems(2) True by simp
    ultimately show ?thesis by (rule Cons.IH)
  next
    case False
    with Cons.prems(1) m have "courses_loop ms sk cs all_courses = Inr all'" by simp
    then show ?thesis using Cons.prems(2) by (rule Cons.IH)
  qed
qed

lemma fetch_loop_positive:
  assumes "fetch_loop request ms0 ms all_courses queries = (Inr all', queries')"
    and "\<forall>r\<in>set all_courses. 0 < rank r"
  shows "\<forall>r\<in>set all'. 0 < rank r"
  using assms
proof (induction ms arbitrary: all_courses queries)
  case Nil
  then show ?case by simp
next
  case (Cons sk ms)
  let ?courses = "get_coursera_courses request (skill_label sk)"
  let ?q = "queries @ [skill_label sk]"
  consider (skip) "fetch_loop request ms0 ms all_courses ?q = (Inr all', queries')"
    | (go) cs all1 where "courses_loop ms0 sk cs all_courses = Inr all1"
        "fetch_loop request ms0 ms all1 ?q = (Inr all', queries')"
    using Cons.prems(1) by (auto simp: Let_def split: if_splits sum.splits)
  then show ?case
  proof cases
    case skip
    then show ?thesis using Cons.prems(2) by (rule Cons.IH)
  next
    case go
    from go(2) courses_loop_positive[OF go(1) Cons.prems(2)] show ?thesis by (rule Cons.IH)
  qed
qed

lemma fetch_loop_skip:
  assumes "no_items (get_coursera_courses request (skill_label sk))"
  shows "fetch_loop request ms0 (sk # rest) all_courses queries =
         fetch_loop request ms0 rest all_courses (queries @ [skill_label sk])"
proof (cases "get_coursera_courses request (skill_label sk)")
  case (JObj kvs)
  show ?thesis
  proof (cases "map_of kvs ''elements''")
    case None
    with JObj show ?thesis by (simp add: Let_def)
  next
    case (Some v)
    with assms JObj have "v = JArr []" by simp
    with JObj Some show ?thesis by (auto simp: Let_def)
  qed
qed (use assms in \<open>simp_all add: Let_def\<close>)

lemma courses_loop_eq:
  "list_all element_ok cs \<Longrightarrow>
   courses_loop ms sk cs all_courses = Inr (all_courses @ concat (map (scored_item ms sk) cs))"
proof (induction cs arbitrary: all_courses)
  case Nil
  then show ?case by simp
next
  case (Cons c cs)
  then have ok: "element_ok c" and rest: "list_all element_ok cs" by simp_all
  from ok obtain n d where "text_field c ''name'' = Inr n" "text_field c ''description'' = Inr d"
    by (rule element_ok_fields)
  from score_single[OF this, of ms] Cons.IH[OF rest] show ?case
    by (simp add: scored_item_def)
qed

lemma contribution_no_items:
  "no_items (get_coursera_courses request (skill_label sk)) \<Longrightarrow> contribution request ms sk = []"
  by (cases "get_coursera_courses request (skill_label sk)")
     (auto simp: contribution_def split: option.splits)

lemma fetch_loop_eq:
  assumes "\<forall>sk\<in>set ms. payload_ok (get_coursera_courses request (skill_label sk))"
  shows "fetch_loop request ms0 ms all_courses queries =
         (Inr (all_courses @ concat (map (contribution request ms0) ms)),
          queries @ map skill_label ms)"
  using assms
proof (induction ms arbitrary: all_courses queries)
  case Nil
  then show ?case by simp
next
  case (Cons sk ms)
  then have ok: "payload_ok (get_coursera_courses request (skill_label sk))"
    and rest: "\<forall>sk\<in>set ms. payload_ok (get_coursera_courses request (skill_label sk))"
    by simp_all
  note IH = Cons.IH[OF rest, of _ "queries @ [skill_label sk]"]
  show ?case
  proof (cases "get_coursera_courses request (skill_label sk)")
    case JNull
    with IH[of all_courses] show ?thesis by (simp add: Let_def contribution_def)
  next
    case (JObj kvs)
    show ?thesis
    proof (cases "map_of kvs ''elements''")
      case None
      with JObj IH[of all_courses] show ?thesis by (simp add: Let_def contribution_def)
    next
      case (Some v)
      with ok JObj obtain cs where v: "v = JArr cs" and cs: "list_all element_ok cs"
        by (cases v) simp_all
      have c: "contribution request ms0 sk = concat (map (scored_item ms0 sk) cs)"
        using JObj Some v by (simp add: contribution_def)
      from JObj Some v IH[of "all_courses @ concat (map (scored_item ms0 sk) cs)"]
        courses_loop_eq[OF cs, of ms0 sk all_courses]
      show ?thesis by (auto simp: Let_def c)
    qed
  qed (use ok in simp_all)
qed

lemma fetch_loop_raises:
  assumes "get_coursera_courses request (skill_label sk) = JObj kvs"
    and "map_of kvs ''elements'' = Some (JArr cs)"
    and "courses_loop ms0 sk cs all_courses = Inl e"
  shows "fetch_loop request ms0 (sk # rest) all_courses queries = (Inl e, queries @ [skill_label sk])"
proof -
  from assms(2) have "kvs \<noteq> []" by auto
  with assms show ?thesis by (simp add: Let_def)
qed


section \<open>The claims\<close>

text \<open>
  Claim C1. Whenever the aggregator returns a list, the list is sorted by total score, highest
  first; it has at most \<open>top_k\<close> entries (for a count \<open>top_k \<ge> 0\<close>; a negative \<open>top_k\<close> is
  a Python slice bound counted from the end); every entry has a total score above 0; and the
  entries of any one score stand in the order in which the fetch loop collected them.
\<close>

theorem recommendations_ranked:
  assumes "get_course_recommendations_cached request get_missing_skills employee_id target_occupation
             top_k = (Inr recs, queries)"
  shows "sorted_wrt (\<lambda>x y. total_score (match_score y) \<le> total_score (match_score x)) recs \<and>
         (0 \<le> top_k \<longrightarrow> int (length recs) \<le> top_k) \<and>
         (\<forall>r\<in>set recs. 0 < total_score (match_score r)) \<and>
         (\<exists>missing_skills all_courses.
            get_missing_skills employee_id target_occupation = Inr missing_skills \<and>
            fetch_loop request missing_skills missing_skills [] [] = (Inr all_courses, queries) \<and>
            (\<forall>s. prefix (filter (\<lambda>r. total_score (match_score r) = s) recs)
                         (filter (\<lambda>r. total_score (match_score r) = s) all_courses)))"
proof -
  from assms obtain missing_skills where
    ms: "get_missing_skills employee_id target_occupation = Inr missing_skills"
    by (auto simp: get_course_recommendations_cached_def split: sum.splits)
  have "\<exists>all_courses. fetch_loop request missing_skills missing_skills [] [] = (Inr all_courses, queries) \<and>
          recs = slice_to top_k (sort_reverse rank all_courses)"
  proof (cases "missing_skills = []")
    case True
    with assms ms show ?thesis
      by (simp add: get_course_recommendations_cached_def slice_to_def sort_reverse_def)
  next
    case False
    with assms ms show ?thesis
      by (auto simp: get_course_recommendations_cached_def split: prod.splits sum.splits)
  qed
  then obtain all_courses where
    f: "fetch_loop request missing_skills missing_skills [] [] = (Inr all_courses, queries)"
    and recs: "recs = slice_to top_k (sort_reverse rank all_courses)"
    by blast
  have p: "prefix recs (sort_reverse rank all_courses)" unfolding recs by (rule slice_to_prefix)
  have 1: "sorted_wrt (\<lambda>x y. rank y \<le> rank x) recs"
    using p sort_reverse_sorted by (rule sorted_wrt_prefix)
  have 2: "0 \<le> top_k \<longrightarrow> int (length recs) \<le> top_k"
    unfolding recs by (simp add: slice_to_length)
  have "\<forall>r\<in>set all_courses. 0 < rank r"
    using f by (rule fetch_loop_positive) simp
  moreover have "set recs \<subseteq> set all_courses"
    using set_mono_prefix[OF p] by (simp add: set_sort_reverse)
  ultimately have 3: "\<forall>r\<in>set recs. 0 < rank r" by blast
  have 4: "prefix (filter (\<lambda>r. rank r = s) recs) (filter (\<lambda>r. rank r = s) all_courses)" for s
    using filter_mono_prefix[OF p, of "\<lambda>r. rank r = s"] by (simp add: sort_reverse_stable)
  from ms f 1 2 3 4 show ?thesis by blast
qed

text \<open>The witness of C1: the example source and gap with \<open>top_k = 2\<close>. Three courses qualify;
  the best one was fetched last, and of the two courses with score \<open>7/5\<close> the one fetched first
  is kept.\<close>

theorem recommendations_ranked_witness:
  "get_course_recommendations_cached example_source example_gap 7 3 2 =
     (Inr [\<lparr>course = sql_course_3,
            match_score = \<lparr>total_score = 12 / 5,
               matched_skills = [\<lparr>skill = ''ml'', score = 2 / 5, level = ''optional''\<rparr>,
                                 \<lparr>skill = ''sql'', score = 1, level = ''essential''\<rparr>]\<rparr>,
            target_skill_level = ''essential'', suitable_for_experience = ''Beginner''\<rparr>,
           \<lparr>course = sql_course,
            match_score = \<lparr>total_score = 7 / 5,
               matched_skills = [\<lparr>skill = ''sql'', score = 7 / 10, level = ''essential''\<rparr>]\<rparr>,
            target_skill_level = ''essential'', suitable_for_experience = ''Beginner''\<rparr>],
      [''ml'', ''SQL'']) \<and>
   (0::int) \<le> 2 \<and> (7 / 5 :: real) \<le> 12 / 5 \<and> (0::real) < 7 / 5 \<and> int (length [sql_course_3, sql_course]) \<le> 2"
proof -
  let ?recs = "[\<lparr>course = sql_course_3,
            match_score = \<lparr>total_score = 12 / 5,
               matched_skills = [\<lparr>skill = ''ml'', score = 2 / 5, level = ''optional''\<rparr>,
                                 \<lparr>skill = ''sql'', score = 1, level = ''essential''\<rparr>]\<rparr>,
            target_skill_level = ''essential'', suitable_for_experience = ''Beginner''\<rparr>,
           \<lparr>course = sql_course,
            match_score = \<lparr>total_score = 7 / 5,
               matched_skills = [\<lparr>skill = ''sql'', score = 7 / 10, level = ''essential''\<rparr>]\<rparr>,
            target_skill_level = ''essential'', suitable_for_experience = ''Beginner''\<rparr>]"
  have h: "get_course_recommendations_cached example_source example_gap 7 3 2 =
     (Inr ?recs, [''ml'', ''SQL''])"
    by code_simp
  from recommendations_ranked[OF h] h show ?thesis by simp
qed

text \<open>
  Claim C2. For an element with name and description as the evaluator reads them, a missing
  skill whose weighted score \<^verbatim>\<open>skill_score\<close> is at most 0.3 leaves the evaluation as it is
  without that skill (it adds nothing to the total) and its label is not in the list of
  matched skills.
\<close>

theorem below_threshold_not_matched:
  assumes "text_field element ''name'' = Inr course_name"
    and "text_field element ''description'' = Inr course_description"
    and "skill_score (lower (skill_label sk)) course_name course_description = Inr s"
    and "s \<le> 0.3"
  shows "calculate_course_match_score (JObj [(''elements'', JArr [element])]) (before @ sk # rest) =
         calculate_course_match_score (JObj [(''elements'', JArr [element])]) (before @ rest) \<and>
         (\<exists>m. calculate_course_match_score (JObj [(''elements'', JArr [element])]) (before @ sk # rest) =
               Inr (Match_Dict m) \<and>
              lower (skill_label sk) \<notin> skill ` set (matched_skills m))"
proof -
  let ?hit = "hit course_name course_description"
  let ?ms = "before @ sk # rest"
  from assms(3,4) have no: "\<not> ?hit sk"
    by (simp add: skill_score_combined hit_def)
  then have same: "calculate_course_match_score (JObj [(''elements'', JArr [element])]) ?ms =
         calculate_course_match_score (JObj [(''elements'', JArr [element])]) (before @ rest)"
    by (simp add: score_single[OF assms(1,2)])
  define m where "m = \<lparr>total_score = sum_list (map (hit_score course_name course_description) (filter ?hit ?ms)),
                          matched_skills = map (hit_entry course_name course_description) (filter ?hit ?ms)\<rparr>"
  have res: "calculate_course_match_score (JObj [(''elements'', JArr [element])]) ?ms = Inr (Match_Dict m)"
    unfolding m_def by (rule score_single[OF assms(1,2)])
  have ms_m: "matched_skills m = map (hit_entry course_name course_description) (filter ?hit ?ms)"
    by (simp add: m_def)
  have "lower (skill_label sk) \<notin> skill ` set (matched_skills m)"
  proof
    assume "lower (skill_label sk) \<in> skill ` set (matched_skills m)"
    then obtain sk' where "sk' \<in> set (filter ?hit ?ms)"
        "lower (skill_label sk) = skill (hit_entry course_name course_description sk')"
      unfolding ms_m set_map image_image by (rule imageE)
    then have "?hit sk'" "lower (skill_label sk') = lower (skill_label sk)"
      by (simp_all only: set_filter mem_Collect_eq hit_entry_def entry_def matched_skill.simps)
    with no show False by (simp add: hit_def)
  qed
  with same res show ?thesis by blast
qed

text \<open>The witness of C2, on the threshold itself: the skill \<^verbatim>\<open>SQL\<close> and a course whose
  description alone is \<^verbatim>\<open>SQL\<close> score exactly \<open>3/10\<close>, which is not a match.\<close>

theorem below_threshold_not_matched_witness:
  "text_field described_course ''name'' = Inr ''x'' \<and>
   text_field described_course ''description'' = Inr ''sql'' \<and>
   skill_score (lower (skill_label essential_sql)) ''x'' ''sql'' = Inr (3 / 10) \<and>
   (3 / 10 :: real) \<le> 0.3 \<and>
   calculate_course_match_score (JObj [(''elements'', JArr [described_course])])
     [optional_ml, essential_sql] =
   calculate_course_match_score (JObj [(''elements'', JArr [described_course])]) [optional_ml] \<and>
   calculate_course_match_score (JObj [(''elements'', JArr [described_course])])
     [optional_ml, essential_sql] = Inr (Match_Dict \<lparr>total_score = 0, matched_skills = []\<rparr>)"
proof -
  have 1: "text_field described_course ''name'' = Inr ''x''" by code_simp
  have 2: "text_field described_course ''description'' = Inr ''sql''" by code_simp
  have 3: "skill_score (lower (skill_label essential_sql)) ''x'' ''sql'' = Inr (3 / 10)"
    by code_simp
  have 4: "(3 / 10 :: real) \<le> 0.3" by simp
  have 5: "calculate_course_match_score (JObj [(''elements'', JArr [described_course])])
     [optional_ml] = Inr (Match_Dict \<lparr>total_score = 0, matched_skills = []\<rparr>)"
    by code_simp
  from below_threshold_not_matched[OF 1 2 3 4, of "[optional_ml]" "[]"] 1 2 3 4 5
  show ?thesis by simp
qed

text \<open>
  Claim C3. Two missing skills that differ only in their level, with the same score \<open>s\<close> above
  the threshold: the essential one adds \<open>s * 2\<close> to the total, the optional one \<open>s * 1\<close>.
\<close>

theorem essential_counts_twice:
  assumes "skill_score (lower (skill_label sk)) course_name course_description = Inr s"
    and "s > 0.3"
  shows "skills_loop course_name course_description
           (sk\<lparr>occupation_skill_level := ''essential''\<rparr> # rest) (tot, matched) =
         skills_loop course_name course_description rest
           (tot + s * 2, matched @ [\<lparr>skill = lower (skill_label sk), score = s, level = ''essential''\<rparr>]) \<and>
         skills_loop course_name course_description
           (sk\<lparr>occupation_skill_level := ''optional''\<rparr> # rest) (tot, matched) =
         skills_loop course_name course_description rest
           (tot + s * 1, matched @ [\<lparr>skill = lower (skill_label sk), score = s, level = ''optional''\<rparr>])"
  using assms by simp

text \<open>The witness of C3: the skill \<^verbatim>\<open>SQL\<close> on a course named \<^verbatim>\<open>sql\<close>, score \<open>7/10\<close>.\<close>

theorem essential_counts_twice_witness:
  "skill_score (lower (skill_label essential_sql)) ''sql'' ''x'' = Inr (7 / 10) \<and>
   (7 / 10 :: real) > 0.3 \<and>
   skills_loop ''sql'' ''x'' [essential_sql\<lparr>occupation_skill_level := ''essential''\<rparr>] (0, []) =
     Inr (0 + 7 / 10 * 2, [\<lparr>skill = ''sql'', score = 7 / 10, level = ''essential''\<rparr>]) \<and>
   skills_loop ''sql'' ''x'' [essential_sql\<lparr>occupation_skill_level := ''optional''\<rparr>] (0, []) =
     Inr (0 + 7 / 10 * 1, [\<lparr>skill = ''sql'', score = 7 / 10, level = ''optional''\<rparr>])"
proof -
  have 1: "skill_score (lower (skill_label essential_sql)) ''sql'' ''x'' = Inr (7 / 10)" by code_simp
  have 2: "(7 / 10 :: real) > 0.3" by simp
  have 3: "lower (skill_label essential_sql) = ''sql''" by code_simp
  from essential_counts_twice[OF 1 2, of "[]" 0 "[]"] 1 2 show ?thesis
    unfolding 3 by simp
qed

text \<open>
  Claim C4. If the taxonomy lookup returns the empty list, the aggregator returns the empty
  list and no query is sent to the course source.
\<close>

theorem empty_gap_no_fetch:
  assumes "get_missing_skills employee_id target_occupation = Inr []"
  shows "get_course_recommendations_cached request get_missing_skills employee_id target_occupation top_k
         = (Inr [], [])"
  using assms by (simp add: get_course_recommendations_cached_def)

text \<open>The witness of C4.\<close>

theorem empty_gap_no_fetch_witness:
  "no_gap (7::nat) (3::nat) = Inr [] \<and>
   get_course_recommendations_cached example_source no_gap 7 3 3 = (Inr [], [])"
proof -
  have h: "no_gap 7 3 = Inr []" by (simp add: no_gap_def)
  from empty_gap_no_fetch[where get_missing_skills = no_gap and employee_id = 7
      and target_occupation = 3 and request = example_source and top_k = 3, OF h] h
  show ?thesis by simp
qed

text \<open>
  Claim C5, as stated, fails: when no skill clears the threshold,
  \<^verbatim>\<open>calculate_course_match_score\<close> does not return an absent value. It returns the dictionary
  with total score 0 and no matched skills, here for the skill \<^verbatim>\<open>welding\<close> and a course named
  \<^verbatim>\<open>Yoga\<close> (weighted score \<open>7/55\<close>).
\<close>

theorem no_match_returns_dict_counterexample:
  "skill_score ''welding'' ''yoga'' [] = Inr (7 / 55) \<and> (7 / 55 :: real) \<le> 0.3 \<and>
   calculate_course_match_score
     (JObj [(''elements'', JArr [JObj [(''name'', JStr ''Yoga'')]])])
     [\<lparr>skill_label = ''welding'', occupation_skill_level = ''optional'', experience_level = None\<rparr>]
   = Inr (Match_Dict \<lparr>total_score = 0, matched_skills = []\<rparr>)"
  by code_simp

text \<open>
  Claim C5, amended. If no missing skill has a weighted score above 0.3 for an element, the
  evaluator returns total score 0 with an empty list of matched skills, and the aggregator's
  loop over the courses passes the element by: it adds no entry for it.
\<close>

theorem no_match_scores_zero:
  assumes "text_field element ''name'' = Inr course_name"
    and "text_field element ''description'' = Inr course_description"
    and "\<forall>sk\<in>set missing_skills. \<forall>s.
           skill_score (lower (skill_label sk)) course_name course_description = Inr s \<longrightarrow> s \<le> 0.3"
  shows "calculate_course_match_score (JObj [(''elements'', JArr [element])]) missing_skills =
           Inr (Match_Dict \<lparr>total_score = 0, matched_skills = []\<rparr>) \<and>
         courses_loop missing_skills sk0 (element # rest) all_courses =
           courses_loop missing_skills sk0 rest all_courses"
proof -
  have "\<forall>sk\<in>set missing_skills. \<not> hit course_name course_description sk"
    using assms(3) by (auto simp: skill_score_combined hit_def)
  then have "filter (hit course_name course_description) missing_skills = []"
    by (simp add: filter_empty_conv)
  then have "calculate_course_match_score (JObj [(''elements'', JArr [element])]) missing_skills =
           Inr (Match_Dict \<lparr>total_score = 0, matched_skills = []\<rparr>)"
    by (simp add: score_single[OF assms(1,2)])
  then show ?thesis by simp
qed

text \<open>The witness of the amended C5: the yoga course and the two example skills.\<close>

theorem no_match_scores_zero_witness:
  "text_field yoga_course ''name'' = Inr ''yoga'' \<and>
   text_field yoga_course ''description'' = Inr [] \<and>
   skill_score (lower (skill_label essential_sql)) ''yoga'' [] = Inr 0 \<and>
   skill_score (lower (skill_label optional_ml)) ''yoga'' [] = Inr 0 \<and>
   calculate_course_match_score (JObj [(''elements'', JArr [yoga_course])]) [essential_sql, optional_ml] =
     Inr (Match_Dict \<lparr>total_score = 0, matched_skills = []\<rparr>) \<and>
   courses_loop [essential_sql, optional_ml] essential_sql [yoga_course] [] = Inr []"
proof -
  have 1: "text_field yoga_course ''name'' = Inr ''yoga''" by code_simp
  have 2: "text_field yoga_course ''description'' = Inr []" by code_simp
  have 3: "skill_score (lower (skill_label essential_sql)) ''yoga'' [] = Inr 0" by code_simp
  have 4: "skill_score (lower (skill_label optional_ml)) ''yoga'' [] = Inr 0" by code_simp
  have 5: "\<forall>sk\<in>set [essential_sql, optional_ml]. \<forall>s.
           skill_score (lower (skill_label sk)) ''yoga'' [] = Inr s \<longrightarrow> s \<le> 0.3"
    using 3 4 by simp
  from no_match_scores_zero[OF 1 2 5, of essential_sql "[]" "[]"] 1 2 3 4 show ?thesis by simp
qed

text \<open>
  Claim C6, as stated, fails in its last part: a failure of the taxonomy lookup is not the
  only error that reaches the caller. Here the lookup succeeds and the request does not fail,
  but the answer has \<^verbatim>\<open>null\<close> for \<^verbatim>\<open>elements\<close>, and the loop over it raises \<^verbatim>\<open>TypeError\<close>.
\<close>

theorem unreadable_answer_raises_counterexample:
  "sql_gap (7::nat) (3::nat) =
     Inr [\<lparr>skill_label = ''SQL'', occupation_skill_level = ''essential'', experience_level = None\<rparr>] \<and>
   null_elements_source ''SQL'' = Inr (JObj [(''elements'', JNull)]) \<and>
   get_course_recommendations_cached null_elements_source sql_gap (7::nat) (3::nat) 3 =
     (Inl TypeError, [''SQL''])"
  by code_simp

text \<open>
  Claim C6, amended. A failed request makes \<^verbatim>\<open>get_coursera_courses\<close> return \<^verbatim>\<open>None\<close>; a
  missing skill whose request fails or lists no course contributes nothing and the loop goes
  on with the rest. A failure of the taxonomy lookup is returned to the caller as it is. When
  the lookup succeeds and every answer is a failure or readable (\<open>payload_ok\<close>), the
  aggregator returns, after one query per missing skill, the first \<open>top_k\<close> of the sorted
  contributions of all the missing skills. An answer that cannot be read is not passed by: an
  element that is not an object raises \<^verbatim>\<open>AttributeError\<close>, which reaches the caller.
\<close>

theorem source_failure_is_skipped:
  "(request query = Inl err \<longrightarrow> get_coursera_courses request query = JNull) \<and>
   (no_items (get_coursera_courses request (skill_label sk)) \<longrightarrow>
      contribution request missing_skills sk = [] \<and>
      fetch_loop request missing_skills (sk # rest) all_courses queries =
      fetch_loop request missing_skills rest all_courses (queries @ [skill_label sk])) \<and>
   (get_missing_skills employee_id target_occupation = Inl err \<longrightarrow>
      get_course_recommendations_cached request get_missing_skills employee_id target_occupation top_k
        = (Inl err, [])) \<and>
   (get_missing_skills employee_id target_occupation = Inr missing_skills \<and>
    (\<forall>sk\<in>set missing_skills. payload_ok (get_coursera_courses request (skill_label sk))) \<longrightarrow>
      get_course_recommendations_cached request get_missing_skills employee_id target_occupation top_k
        = (Inr (slice_to top_k
                 (sort_reverse (\<lambda>x. total_score (match_score x))
                    (concat (map (contribution request missing_skills) missing_skills)))),
           map skill_label missing_skills)) \<and>
   (get_missing_skills employee_id target_occupation = Inr (sk # rest) \<and>
    get_coursera_courses request (skill_label sk) = JObj kvs \<and>
    map_of kvs ''elements'' = Some (JArr (element # cs)) \<and> \<not> is_obj element \<longrightarrow>
      get_course_recommendations_cached request get_missing_skills employee_id target_occupation top_k
        = (Inl AttributeError, [skill_label sk]))"
proof (intro conjI impI)
  assume "request query = Inl err"
  then show "get_coursera_courses request query = JNull" by (simp add: get_coursera_courses_def)
next
  assume "no_items (get_coursera_courses request (skill_label sk))"
  then show "contribution request missing_skills sk = []" by (rule contribution_no_items)
next
  assume "no_items (get_coursera_courses request (skill_label sk))"
  then show "fetch_loop request missing_skills (sk # rest) all_courses queries =
      fetch_loop request missing_skills rest all_courses (queries @ [skill_label sk])"
    by (rule fetch_loop_skip)
next
  assume "get_missing_skills employee_id target_occupation = Inl err"
  then show "get_course_recommendations_cached request get_missing_skills employee_id
      target_occupation top_k = (Inl err, [])"
    by (simp add: get_course_recommendations_cached_def)
next
  assume a: "get_missing_skills employee_id target_occupation = Inr missing_skills \<and>
    (\<forall>sk\<in>set missing_skills. payload_ok (get_coursera_courses request (skill_label sk)))"
  then have "fetch_loop request missing_skills missing_skills [] [] =
      (Inr (concat (map (contribution request missing_skills) missing_skills)),
       map skill_label missing_skills)"
    using fetch_loop_eq[of missing_skills request missing_skills "[]" "[]"] by simp
  with a show "get_course_recommendations_cached request get_missing_skills employee_id
      target_occupation top_k
        = (Inr (slice_to top_k
                 (sort_reverse (\<lambda>x. total_score (match_score x))
                    (concat (map (contribution request missing_skills) missing_skills)))),
           map skill_label missing_skills)"
    by (cases "missing_skills = []")
       (simp_all add: get_course_recommendations_cached_def slice_to_def sort_reverse_def)
next
  assume a: "get_missing_skills employee_id target_occupation = Inr (sk # rest) \<and>
    get_coursera_courses request (skill_label sk) = JObj kvs \<and>
    map_of kvs ''elements'' = Some (JArr (element # cs)) \<and> \<not> is_obj element"
  then have "text_field element ''name'' = Inl AttributeError" by (simp add: text_field_not_obj)
  then have "calculate_course_match_score (JObj [(''elements'', JArr [element])]) (sk # rest) =
        Inl AttributeError"
    by (simp add: calculate_course_match_score_def)
  then have "courses_loop (sk # rest) sk (element # cs) [] = Inl AttributeError" by simp
  with a have "fetch_loop request (sk # rest) (sk # rest) [] [] = (Inl AttributeError, [] @ [skill_label sk])"
    by (intro fetch_loop_raises) auto
  with a show "get_course_recommendations_cached request get_missing_skills employee_id
      target_occupation top_k = (Inl AttributeError, [skill_label sk])"
    by (simp add: get_course_recommendations_cached_def)
qed

text \<open>The witness of the amended C6: the example source fails on the query \<^verbatim>\<open>ml\<close>, the first
  of the two missing skills, and the three courses that qualify for the second are returned;
  the failing taxonomy lookup is passed on; so is the error on a \<^verbatim>\<open>null\<close> course.\<close>

theorem source_failure_is_skipped_witness:
  "example_source ''ml'' = Inl RequestException \<and>
   get_coursera_courses example_source ''ml'' = JNull \<and>
   no_items (get_coursera_courses example_source (skill_label optional_ml)) \<and>
   contribution example_source [optional_ml, essential_sql] optional_ml = [] \<and>
   fetch_loop example_source [optional_ml, essential_sql] [optional_ml, essential_sql] [] [] =
     fetch_loop example_source [optional_ml, essential_sql] [essential_sql] [] [''ml''] \<and>
   failing_gap 7 3 = Inl TaxonomyError \<and>
   get_course_recommendations_cached example_source failing_gap 7 3 3 = (Inl TaxonomyError, []) \<and>
   example_gap 7 3 = Inr [optional_ml, essential_sql] \<and>
   payload_ok (get_coursera_courses example_source (skill_label optional_ml)) \<and>
   payload_ok (get_coursera_courses example_source (skill_label essential_sql)) \<and>
   get_course_recommendations_cached example_source example_gap 7 3 3 =
     (Inr [\<lparr>course = sql_course_3,
            match_score = \<lparr>total_score = 12 / 5,
               matched_skills = [\<lparr>skill = ''ml'', score = 2 / 5, level = ''optional''\<rparr>,
                                 \<lparr>skill = ''sql'', score = 1, level = ''essential''\<rparr>]\<rparr>,
            target_skill_level = ''essential'', suitable_for_experience = ''Beginner''\<rparr>,
           \<lparr>course = sql_course,
            match_score = \<lparr>total_score = 7 / 5,
               matched_skills = [\<lparr>skill = ''sql'', score = 7 / 10, level = ''essential''\<rparr>]\<rparr>,
            target_skill_level = ''essential'', suitable_for_experience = ''Beginner''\<rparr>,
           \<lparr>course = sql_course_2,
            match_score = \<lparr>total_score = 7 / 5,
               matched_skills = [\<lparr>skill = ''sql'', score = 7 / 10, level = ''essential''\<rparr>]\<rparr>,
            target_skill_level = ''essential'', suitable_for_experience = ''Beginner''\<rparr>],
      [''ml'', ''SQL'']) \<and>
   sql_gap 7 3 = Inr [essential_sql] \<and>
   get_coursera_courses null_item_source (skill_label essential_sql) =
     JObj [(''elements'', JArr [JNull])] \<and>
   \<not> is_obj JNull \<and>
   get_course_recommendations_cached null_item_source sql_gap 7 3 3 = (Inl AttributeError, [''SQL''])"
proof -
  have 1: "example_source ''ml'' = Inl RequestException" by code_simp
  have 2: "no_items (get_coursera_courses example_source (skill_label optional_ml))" by code_simp
  have 3: "payload_ok (get_coursera_courses example_source (skill_label optional_ml))" by code_simp
  have 4: "payload_ok (get_coursera_courses example_source (skill_label essential_sql))" by code_simp
  have 5: "example_gap 7 3 = Inr [optional_ml, essential_sql]" by (simp add: example_gap_def)
  have 6: "skill_label optional_ml = ''ml''" "skill_label essential_sql = ''SQL''"
    by (simp_all add: optional_ml_def essential_sql_def)
  have 7: "\<forall>sk\<in>set [optional_ml, essential_sql].
             payload_ok (get_coursera_courses example_source (skill_label sk))"
    using 3 4 by simp
  have 8: "failing_gap 7 3 = Inl TaxonomyError" by (simp add: failing_gap_def)
  have 9: "sql_gap 7 3 = Inr [essential_sql]" by (simp add: sql_gap_def)
  have 10: "get_coursera_courses null_item_source (skill_label essential_sql) =
     JObj [(''elements'', JArr [JNull])]"
    by (simp add: get_coursera_courses_def null_item_source_def)
  have 11: "map_of [(''elements'', JArr [JNull])] ''elements'' = Some (JArr (JNull # []))" by simp
  have 12: "\<not> is_obj JNull" by simp
  have 13: "slice_to 3 (sort_reverse (\<lambda>x. total_score (match_score x))
       (concat (map (contribution example_source [optional_ml, essential_sql])
                  [optional_ml, essential_sql]))) =
     [\<lparr>course = sql_course_3,
            match_score = \<lparr>total_score = 12 / 5,
               matched_skills = [\<lparr>skill = ''ml'', score = 2 / 5, level = ''optional''\<rparr>,
                                 \<lparr>skill = ''sql'', score = 1, level = ''essential''\<rparr>]\<rparr>,
            target_skill_level = ''essential'', suitable_for_experience = ''Beginner''\<rparr>,
           \<lparr>course = sql_course,
            match_score = \<lparr>total_score = 7 / 5,
               matched_skills = [\<lparr>skill = ''sql'', score = 7 / 10, level = ''essential''\<rparr>]\<rparr>,
            target_skill_level = ''essential'', suitable_for_experience = ''Beginner''\<rparr>,
           \<lparr>course = sql_course_2,
            match_score = \<lparr>total_score = 7 / 5,
               matched_skills = [\<lparr>skill = ''sql'', score = 7 / 10, level = ''essential''\<rparr>]\<rparr>,
            target_skill_level = ''essential'', suitable_for_experience = ''Beginner''\<rparr>]"
    by code_simp
  note t = source_failure_is_skipped[where request = example_source and query = "''ml''"
      and err = RequestException and sk = optional_ml
      and missing_skills = "[optional_ml, essential_sql]" and rest = "[essential_sql]"
      and all_courses = "[]" and queries = "[]" and get_missing_skills = example_gap
      and employee_id = 7 and target_occupation = 3 and top_k = 3]
  note u = source_failure_is_skipped[where err = TaxonomyError and get_missing_skills = failing_gap
      and employee_id = 7 and target_occupation = 3 and top_k = 3 and request = example_source]
  note v = source_failure_is_skipped[where get_missing_skills = sql_gap and employee_id = 7
      and target_occupation = 3 and top_k = 3 and request = null_item_source
      and sk = essential_sql and rest = "[]" and kvs = "[(''elements'', JArr [JNull])]"
      and element = JNull and cs = "[]"]
  from t 1 2 5 7 have
    a: "get_coursera_courses example_source ''ml'' = JNull"
    and b: "fetch_loop example_source [optional_ml, essential_sql] (optional_ml # [essential_sql]) [] [] =
       fetch_loop example_source [optional_ml, essential_sql] [essential_sql] [] ([] @ [skill_label optional_ml])"
    and b': "contribution example_source [optional_ml, essential_sql] optional_ml = []"
    and c: "get_course_recommendations_cached example_source example_gap 7 3 3 =
       (Inr (slice_to 3 (sort_reverse (\<lambda>x. total_score (match_score x))
          (concat (map (contribution example_source [optional_ml, essential_sql])
                  [optional_ml, essential_sql])))),
        map skill_label [optional_ml, essential_sql])"
    by blast+
  from u 8 have d: "get_course_recommendations_cached example_source failing_gap 7 3 3 =
      (Inl TaxonomyError, [])" by blast
  from v 9 10 11 12 have e: "get_course_recommendations_cached null_item_source sql_gap 7 3 3 =
      (Inl AttributeError, [skill_label essential_sql])" by blast
  from a b b' c[unfolded 13] d e 1 2 3 4 5 8 9 10 12 show ?thesis by (simp add: 6)
qed

text \<open>
  Claim C7. On two strings \<^verbatim>\<open>calculate_skill_match\<close> returns the ratio of their lower-cased
  forms, a value between 0 and 1, and 1 when the lower-cased forms are equal.
\<close>

theorem similarity_range:
  "calculate_skill_match (JStr a) (JStr b) = Inr (ratio (lower a) (lower b)) \<and>
   0 \<le> ratio (lower a) (lower b) \<and> ratio (lower a) (lower b) \<le> 1 \<and>
   (lower a = lower b \<longrightarrow> calculate_skill_match (JStr a) (JStr b) = Inr 1)"
  using ratio_bounds[of "lower a" "lower b"]
  by (simp add: calculate_skill_match_strings ratio_self)

text \<open>The witness of C7.\<close>

theorem similarity_range_witness:
  "lower ''SQL'' = lower ''sql'' \<and> calculate_skill_match (JStr ''SQL'') (JStr ''sql'') = Inr 1"
proof -
  have eq: "lower ''SQL'' = lower ''sql''" by code_simp
  with similarity_range[of "''SQL''" "''sql''"] show ?thesis by blast
qed

text \<open>
  Claim C8, as stated, fails: \<^verbatim>\<open>calculate_skill_match(None, 'python')\<close> raises
  \<^verbatim>\<open>AttributeError\<close>, where reading \<^verbatim>\<open>None\<close> as the empty string would give 0.
\<close>

theorem similarity_raises_counterexample:
  "calculate_skill_match JNull (JStr ''python'') = Inl AttributeError \<and>
   calculate_skill_match (JStr []) (JStr ''python'') = Inr 0"
  by code_simp

text \<open>
  Claim C8, amended. On two strings \<^verbatim>\<open>calculate_skill_match\<close> never raises; when one of the
  arguments is not a string it raises \<^verbatim>\<open>AttributeError\<close>.
\<close>

theorem similarity_total_on_strings:
  "(\<exists>r. calculate_skill_match (JStr a) (JStr b) = Inr r) \<and>
   (\<not> is_str x \<or> \<not> is_str y \<longrightarrow> calculate_skill_match x y = Inl AttributeError)"
proof -
  have "calculate_skill_match x y = Inl AttributeError" if "\<not> is_str x \<or> \<not> is_str y"
  proof (cases "is_str x")
    case True
    with that have "\<not> is_str y" by simp
    with lower_method_str[OF True] show ?thesis
      by (auto simp: calculate_skill_match_def lower_method_not_str)
  next
    case False
    then show ?thesis by (simp add: calculate_skill_match_def lower_method_not_str)
  qed
  then show ?thesis by (simp add: calculate_skill_match_strings)
qed

text \<open>The witness of the amended C8.\<close>

theorem similarity_total_on_strings_witness:
  "\<not> is_str JNull \<and> calculate_skill_match JNull (JStr ''python'') = Inl AttributeError \<and>
   (\<exists>r. calculate_skill_match (JStr ''Python'') (JStr ''python'') = Inr r)"
proof -
  have h: "\<not> is_str JNull" by simp
  with similarity_total_on_strings[of "''Python''" "''python''" JNull "JStr ''python''"]
  show ?thesis by blast
qed

text \<open>
  Claim C9, as stated, fails: a course that is \<^verbatim>\<open>null\<close> (falsy), or whose name is \<^verbatim>\<open>null\<close>,
  makes the evaluator raise \<^verbatim>\<open>AttributeError\<close> in the form the aggregator passes it,
  \<^verbatim>\<open>{'elements': [course]}\<close>, and the aggregator raises with it.
\<close>

theorem malformed_item_raises_counterexample:
  "\<not> truthy JNull \<and>
   calculate_course_match_score (JObj [(''elements'', JArr [JNull])])
     [\<lparr>skill_label = ''SQL'', occupation_skill_level = ''essential'', experience_level = None\<rparr>]
     = Inl AttributeError \<and>
   calculate_course_match_score (JObj [(''elements'', JArr [JObj [(''name'', JNull)]])])
     [\<lparr>skill_label = ''SQL'', occupation_skill_level = ''essential'', experience_level = None\<rparr>]
     = Inl AttributeError \<and>
   get_course_recommendations_cached null_item_source sql_gap 0 0 3 = (Inl AttributeError, [''SQL''])"
  by code_simp

text \<open>
  Claim C9, amended. A falsy item and an item without \<^verbatim>\<open>elements\<close> evaluate to the integer 0
  without an error. In an element that is an object, a missing name or description is read as
  the empty string, and an element without a name, whose description is absent or a string,
  matches no missing skill with a non-empty label: total score 0, no error. An element that is
  not an object raises \<^verbatim>\<open>AttributeError\<close>, in the evaluator and in the aggregator's loop.
\<close>

theorem malformed_item_handling:
  "(\<not> truthy c \<longrightarrow> calculate_course_match_score c missing_skills = Inr Int_Zero) \<and>
   (contains ''elements'' c = Inr False \<longrightarrow>
      calculate_course_match_score c missing_skills = Inr Int_Zero) \<and>
   (map_of kvs key = None \<longrightarrow> text_field (JObj kvs) key = Inr []) \<and>
   (map_of kvs ''name'' = None \<and> field_ok kvs ''description'' \<and>
    (\<forall>sk\<in>set missing_skills. skill_label sk \<noteq> []) \<longrightarrow>
      calculate_course_match_score (JObj [(''elements'', JArr [JObj kvs])]) missing_skills =
        Inr (Match_Dict \<lparr>total_score = 0, matched_skills = []\<rparr>)) \<and>
   (\<not> is_obj element \<longrightarrow>
      calculate_course_match_score (JObj [(''elements'', JArr [element])]) missing_skills =
        Inl AttributeError \<and>
      courses_loop missing_skills sk (element # rest) all_courses = Inl AttributeError)"
proof (intro conjI impI)
  assume "\<not> truthy c"
  then show "calculate_course_match_score c missing_skills = Inr Int_Zero"
    by (simp add: calculate_course_match_score_def)
next
  assume "contains ''elements'' c = Inr False"
  then show "calculate_course_match_score c missing_skills = Inr Int_Zero"
    by (simp add: calculate_course_match_score_def)
next
  assume "map_of kvs key = None"
  then show "text_field (JObj kvs) key = Inr []" by (rule text_field_missing)
next
  assume a: "map_of kvs ''name'' = None \<and> field_ok kvs ''description'' \<and>
    (\<forall>sk\<in>set missing_skills. skill_label sk \<noteq> [])"
  then have n: "text_field (JObj kvs) ''name'' = Inr []" by (simp add: text_field_missing)
  from a text_field_ok obtain d where d: "text_field (JObj kvs) ''description'' = Inr d" by blast
  have "\<not> hit [] d sk" if "sk \<in> set missing_skills" for sk
  proof -
    from a that have "lower (skill_label sk) \<noteq> []" by (simp add: lower_eq_Nil)
    from combined_no_name[OF this, of d] show ?thesis by (simp add: hit_def)
  qed
  then have "filter (hit [] d) missing_skills = []" by (simp add: filter_empty_conv)
  then show "calculate_course_match_score (JObj [(''elements'', JArr [JObj kvs])]) missing_skills =
        Inr (Match_Dict \<lparr>total_score = 0, matched_skills = []\<rparr>)"
    by (simp add: score_single[OF n d])
next
  assume "\<not> is_obj element"
  then have "text_field element ''name'' = Inl AttributeError" by (rule text_field_not_obj)
  then show r: "calculate_course_match_score (JObj [(''elements'', JArr [element])]) missing_skills =
        Inl AttributeError"
    by (simp add: calculate_course_match_score_def)
  then show "courses_loop missing_skills sk (element # rest) all_courses = Inl AttributeError"
    by simp
qed

text \<open>The witness of the amended C9.\<close>

theorem malformed_item_handling_witness:
  "\<not> truthy (JObj []) \<and>
   calculate_course_match_score (JObj []) [essential_sql] = Inr Int_Zero \<and>
   contains ''elements'' (JObj [(''name'', JStr ''Sql'')]) = Inr False \<and>
   calculate_course_match_score (JObj [(''name'', JStr ''Sql'')]) [essential_sql] = Inr Int_Zero \<and>
   map_of [(''slug'', JStr ''sql-1'')] ''description'' = None \<and>
   text_field (JObj [(''slug'', JStr ''sql-1'')]) ''description'' = Inr [] \<and>
   map_of [(''slug'', JStr ''sql-1'')] ''name'' = None \<and>
   field_ok [(''slug'', JStr ''sql-1'')] ''description'' \<and>
   skill_label essential_sql \<noteq> [] \<and>
   calculate_course_match_score (JObj [(''elements'', JArr [JObj [(''slug'', JStr ''sql-1'')]])])
     [essential_sql] = Inr (Match_Dict \<lparr>total_score = 0, matched_skills = []\<rparr>) \<and>
   \<not> is_obj JNull \<and>
   courses_loop [essential_sql] essential_sql [JNull, sql_course] [] = Inl AttributeError"
proof -
  have 1: "\<not> truthy (JObj [])" by simp
  have 2: "contains ''elements'' (JObj [(''name'', JStr ''Sql'')]) = Inr False" by simp
  have 3: "map_of [(''slug'', JStr ''sql-1'')] ''description'' = None" by simp
  have 4: "map_of [(''slug'', JStr ''sql-1'')] ''name'' = None" by simp
  have 5: "field_ok [(''slug'', JStr ''sql-1'')] ''description''" by (simp add: field_ok_def)
  have 6: "skill_label essential_sql \<noteq> []" by (simp add: essential_sql_def)
  have 7: "\<not> is_obj JNull" by simp
  note t = malformed_item_handling[where missing_skills = "[essential_sql]"
      and kvs = "[(''slug'', JStr ''sql-1'')]" and key = "''description''" and element = JNull
      and sk = essential_sql and rest = "[sql_course]" and all_courses = "[]"]
  from t[where c = "JObj []"] t[where c = "JObj [(''name'', JStr ''Sql'')]"]
    1 2 3 4 5 6 7
  show ?thesis by simp
qed

text \<open>
  Claim C10. For an item whose elements are readable, the evaluator returns a dictionary whose
  total score is the sum, over the matched skills recorded, of score times weight (2 for the
  level \<^verbatim>\<open>essential\<close>, else 1); every recorded score is above 0.3; and the total score is
  above 0 exactly when a skill is recorded.
\<close>

theorem evaluation_trace_consistent:
  assumes "map_of kvs ''elements'' = Some (JArr elements)"
    and "list_all element_ok elements"
  shows "\<exists>m. calculate_course_match_score (JObj kvs) missing_skills = Inr (Match_Dict m) \<and>
           total_score m =
             (\<Sum>e\<leftarrow>matched_skills m. score e * (if level e = ''essential'' then 2 else 1)) \<and>
           (\<forall>e\<in>set (matched_skills m). score e > 0.3) \<and>
           (total_score m > 0 \<longleftrightarrow> matched_skills m \<noteq> [])"
proof -
  from assms(1) have ne: "kvs \<noteq> []" by auto
  from elements_loop_total[OF assms(2), of missing_skills "(0, [])"]
  obtain tot matched where l: "elements_loop elements missing_skills (0, []) = Inr (tot, matched)"
    by auto
  let ?m = "\<lparr>total_score = tot, matched_skills = matched\<rparr>"
  have r: "calculate_course_match_score (JObj kvs) missing_skills = Inr (Match_Dict ?m)"
    using assms(1) ne l by (simp add: calculate_course_match_score_def)
  from evaluation_consistent[OF r] have c: "consistent (tot, matched)" by simp
  then have "tot = (\<Sum>e\<leftarrow>matched. score e * (if level e = ''essential'' then 2 else 1))"
    and "\<forall>e\<in>set matched. score e > 0.3"
    by (simp_all add: consistent_def weighted_def weight_def)
  moreover from consistent_positive[OF c] have "tot > 0 \<longleftrightarrow> matched \<noteq> []" .
  ultimately show ?thesis using r by auto
qed

text \<open>The witness of C10: an item with the two elements \<open>sql_course\<close> and \<open>yoga_course\<close>.\<close>

theorem evaluation_trace_consistent_witness:
  "map_of [(''elements'', JArr [sql_course, yoga_course])] ''elements'' =
     Some (JArr [sql_course, yoga_course]) \<and>
   list_all element_ok [sql_course, yoga_course] \<and>
   calculate_course_match_score (JObj [(''elements'', JArr [sql_course, yoga_course])])
     [essential_sql, optional_ml] =
     Inr (Match_Dict \<lparr>total_score = 7 / 5,
            matched_skills = [\<lparr>skill = ''sql'', score = 7 / 10, level = ''essential''\<rparr>]\<rparr>) \<and>
   (7 / 5 :: real) = 7 / 10 * 2"
proof -
  have 1: "map_of [(''elements'', JArr [sql_course, yoga_course])] ''elements'' =
     Some (JArr [sql_course, yoga_course])" by simp
  have 2: "list_all element_ok [sql_course, yoga_course]" by code_simp
  have 3: "calculate_course_match_score (JObj [(''elements'', JArr [sql_course, yoga_course])])
     [essential_sql, optional_ml] =
     Inr (Match_Dict \<lparr>total_score = 7 / 5,
            matched_skills = [\<lparr>skill = ''sql'', score = 7 / 10, level = ''essential''\<rparr>]\<rparr>)"
    by code_simp
  from evaluation_trace_consistent[OF 1 2, of "[essential_sql, optional_ml]"] 1 2
  show ?thesis unfolding 3 by simp
qed

end
